theory Spec2Isabelle
  imports Complex_Main "HOL-Library.AList"
begin

section \<open>ByteBeast: the behavioural state engine\<close>

text \<open>
  A shallow embedding of \<^verbatim>\<open>src/core/models.py\<close> (the data classes \<^verbatim>\<open>EnvFeatures\<close>
  and \<^verbatim>\<open>Beast\<close>) and of \<^verbatim>\<open>src/state/mood_engine.py\<close> (the class
  \<^verbatim>\<open>MoodEngine\<close> and \<^verbatim>\<open>create_default_beast\<close>).

  Conventions of the embedding.
  \<^item> A Python \<^verbatim>\<open>float\<close> is a \<^typ>\<open>real\<close>: rounding, infinities and NaN are not
    modelled. A Python \<^verbatim>\<open>int\<close> is an \<^typ>\<open>int\<close>.
  \<^item> A Python \<^verbatim>\<open>dict\<close> with string keys is an association list in insertion order;
    \<^verbatim>\<open>d[k]\<close> is \<open>getitem\<close> (it raises \<^verbatim>\<open>KeyError\<close> on a missing key),
    \<^verbatim>\<open>d.get(k, v)\<close> is \<open>get_default\<close>, \<^verbatim>\<open>d[k] = v\<close> is \<open>AList.update\<close>
    (in place for a present key, appended for a new one), \<^verbatim>\<open>k in d\<close> is \<open>contains\<close>.
  \<^item> The configuration singleton is a value \<open>cfg\<close> passed to every operation; a section
    that is absent from the configuration is the empty dictionary, as
    \<^verbatim>\<open>Config.get_section\<close> returns.
  \<^item> \<^verbatim>\<open>time.time()\<close> is a parameter \<open>now\<close>.
  \<^item> An exception is a value of type \<open>error\<close>. A function that only reads returns
    \<open>error + 'a\<close>. A method that mutates the beast in place returns the state the object
    is left in together with the exception raised, if any: \<open>Beast \<times> error option\<close>.
\<close>

subsection \<open>Errors and dictionaries\<close>

datatype error = KeyError string | ZeroDivisionError | AttributeError string | ValueError

type_synonym dict = "(string \<times> real) list"

definition getitem :: "dict \<Rightarrow> string \<Rightarrow> error + real" where
  "getitem d k = (case map_of d k of None \<Rightarrow> Inl (KeyError k) | Some v \<Rightarrow> Inr v)"

definition get_default :: "dict \<Rightarrow> string \<Rightarrow> real \<Rightarrow> real" where
  "get_default d k v = (case map_of d k of None \<Rightarrow> v | Some w \<Rightarrow> w)"

definition contains :: "dict \<Rightarrow> string \<Rightarrow> bool" where
  "contains d k = (map_of d k \<noteq> None)"

definition values_of :: "dict \<Rightarrow> real list" where
  "values_of d = map snd d"

text \<open>Sequencing of computations that may raise.\<close>

definition bind :: "error + 'a \<Rightarrow> ('a \<Rightarrow> error + 'b) \<Rightarrow> error + 'b" where
  "bind r f = (case r of Inl e \<Rightarrow> Inl e | Inr v \<Rightarrow> f v)"

text \<open>Python's short-circuit \<^verbatim>\<open>or\<close> and \<^verbatim>\<open>and\<close>: the right operand is evaluated,
  and can raise, only when the left one does not decide the result.\<close>

definition or_else :: "error + bool \<Rightarrow> error + bool \<Rightarrow> error + bool" where
  "or_else a b = bind a (\<lambda>x. if x then Inr True else b)"

definition and_also :: "error + bool \<Rightarrow> error + bool \<Rightarrow> error + bool" where
  "and_also a b = bind a (\<lambda>x. if x then b else Inr False)"

subsection \<open>Data model (\<^verbatim>\<open>core/models.py\<close>)\<close>

record EnvFeatures =
  lux :: real
  cct_k :: real
  temp_c :: real
  rh :: real
  pressure_hpa :: real
  pressure_trend :: real
  motion_rms_g :: real
  shake_events :: int
  heading_deg :: real
  roll :: real
  pitch :: real
  yaw :: real
  vbat :: real
  ibat :: real
  pwr_w :: real
  charging :: bool
  ssid_fingerprint :: string
  timestamp :: real

text \<open>
  The two last fields stand for the instance attributes \<^verbatim>\<open>_last_fingerprint\<close> and
  \<^verbatim>\<open>_last_lux\<close>, which \<^verbatim>\<open>_detect_novelty\<close> reads with \<^verbatim>\<open>getattr\<close> and
  \<^verbatim>\<open>hasattr\<close>: \<open>None\<close> is an object without the attribute.
\<close>

record Beast =
  mood :: string
  needs :: dict
  traits :: dict
  evolution_path :: string
  evolution_stage :: int
  evolution_prog :: real
  energy :: real
  last_updated :: real
  attr_last_fingerprint :: "string option"
  attr_last_lux :: "real option"

record Config =
  thresholds :: dict
  needs_config :: dict
  evolution_config :: dict
  power_config :: dict

definition clamp :: "real \<Rightarrow> real \<Rightarrow> real \<Rightarrow> real" where
  "clamp lo hi v = max lo (min hi v)"

definition clamp_values :: "real \<Rightarrow> real \<Rightarrow> dict \<Rightarrow> dict" where
  "clamp_values lo hi d = map (\<lambda>(k, v). (k, clamp lo hi v)) d"

text \<open>The generated constructor followed by \<^verbatim>\<open>Beast.__post_init__\<close>.\<close>

definition Beast_init ::
  "string \<Rightarrow> dict \<Rightarrow> dict \<Rightarrow> string \<Rightarrow> int \<Rightarrow> real \<Rightarrow> real \<Rightarrow> real \<Rightarrow> Beast" where
  "Beast_init m n t p s g e u =
     \<lparr> mood = m,
       needs = clamp_values 0 100 n,
       traits = clamp_values 0 1 t,
       evolution_path = p,
       evolution_stage = max 1 (min 4 s),
       evolution_prog = max 0 (min 1 g),
       energy = max 0 (min 100 e),
       last_updated = u,
       attr_last_fingerprint = None,
       attr_last_lux = None \<rparr>"

definition create_default_beast :: "real \<Rightarrow> Beast" where
  "create_default_beast now =
     Beast_init ''calm''
       [(''hunger'', 75), (''rest'', 60), (''social'', 50), (''hygiene'', 80)]
       [(''playful'', 0.5), (''needy'', 0.3), (''rebellious'', 0.2), (''social'', 0.4),
        (''explorer'', 0.6)]
       ''sun'' 1 0 100 now"

subsection \<open>Mood inference (\<^verbatim>\<open>MoodEngine.infer_mood\<close> and its helpers)\<close>

definition is_environmental_extreme :: "Config \<Rightarrow> EnvFeatures \<Rightarrow> bool" where
  "is_environmental_extreme cfg env \<longleftrightarrow>
     \<bar>pressure_trend env\<bar> > get_default (thresholds cfg) ''pressure_stable'' 2 * 2
     \<or> rh env > 90 \<or> rh env < 10"

definition is_sustained_condition :: "EnvFeatures \<Rightarrow> Beast \<Rightarrow> string \<Rightarrow> bool" where
  "is_sustained_condition env beast condition =
     (if condition = ''sleepy'' then energy beast < 40
      else if condition = ''bored'' then get_default (needs beast) ''social'' 50 < 40
      else False)"

definition is_comfortable_temperature :: "Config \<Rightarrow> real \<Rightarrow> error + bool" where
  "is_comfortable_temperature cfg t =
     bind (getitem (thresholds cfg) ''temp_cold'') (\<lambda>cold.
       if cold + 5 \<le> t
       then bind (getitem (thresholds cfg) ''temp_hot'') (\<lambda>hot. Inr (t \<le> hot - 5))
       else Inr False)"

definition detect_novelty :: "EnvFeatures \<Rightarrow> Beast \<Rightarrow> bool" where
  "detect_novelty env beast =
     (if ssid_fingerprint env \<noteq> (case attr_last_fingerprint beast of None \<Rightarrow> '''' | Some f \<Rightarrow> f)
      then True
      else if shake_events env > 2 then True
      else (case attr_last_lux beast of
              None \<Rightarrow> False
            | Some l \<Rightarrow> \<bar>lux env - l\<bar> / max l 1 > 0.5))"

definition is_environment_unstable :: "Config \<Rightarrow> EnvFeatures \<Rightarrow> bool" where
  "is_environment_unstable cfg env \<longleftrightarrow>
     \<bar>pressure_trend env\<bar> > get_default (thresholds cfg) ''pressure_stable'' 2
     \<or> shake_events env > 3"

definition rule_sick :: "Config \<Rightarrow> EnvFeatures \<Rightarrow> Beast \<Rightarrow> error + bool" where
  "rule_sick cfg env beast =
     or_else (bind (getitem (power_config cfg) ''low_voltage'') (\<lambda>lv. Inr (vbat env < lv)))
       (Inr (energy beast < 20 \<or> is_environmental_extreme cfg env))"

definition rule_sleepy :: "Config \<Rightarrow> EnvFeatures \<Rightarrow> Beast \<Rightarrow> error + bool" where
  "rule_sleepy cfg env beast =
     and_also (bind (getitem (thresholds cfg) ''lux_dark'') (\<lambda>d. Inr (lux env < d)))
       (and_also
          (bind (getitem (thresholds cfg) ''motion_active_g'') (\<lambda>a. Inr (motion_rms_g env < a / 4)))
          (Inr (is_sustained_condition env beast ''sleepy'')))"

definition rule_playful :: "Config \<Rightarrow> EnvFeatures \<Rightarrow> error + bool" where
  "rule_playful cfg env =
     or_else (Inr (shake_events env > 0))
       (bind (getitem (thresholds cfg) ''motion_active_g'') (\<lambda>a. Inr (motion_rms_g env > a)))"

definition rule_happy :: "Config \<Rightarrow> EnvFeatures \<Rightarrow> Beast \<Rightarrow> error + bool" where
  "rule_happy cfg env beast =
     and_also (bind (getitem (thresholds cfg) ''lux_bright'') (\<lambda>b. Inr (lux env > b)))
       (and_also (is_comfortable_temperature cfg (temp_c env)) (Inr (energy beast > 60)))"

definition rule_bored :: "Config \<Rightarrow> EnvFeatures \<Rightarrow> Beast \<Rightarrow> error + bool" where
  "rule_bored cfg env beast =
     and_also
       (bind (getitem (thresholds cfg) ''motion_active_g'') (\<lambda>a. Inr (motion_rms_g env < a / 2)))
       (Inr (is_sustained_condition env beast ''bored''))"

definition rule_anxious :: "Config \<Rightarrow> EnvFeatures \<Rightarrow> Beast \<Rightarrow> bool" where
  "rule_anxious cfg env beast \<longleftrightarrow>
     is_environment_unstable cfg env \<or> list_ex (\<lambda>need. need < 30) (values_of (needs beast))"

definition infer_mood :: "Config \<Rightarrow> EnvFeatures \<Rightarrow> Beast \<Rightarrow> error + string" where
  "infer_mood cfg env beast =
     bind (getitem (thresholds cfg) ''temp_hot'') (\<lambda>hot.
     if temp_c env \<ge> hot then Inr ''hot'' else
     bind (getitem (thresholds cfg) ''temp_cold'') (\<lambda>cold.
     if temp_c env \<le> cold then Inr ''cold'' else
     bind (rule_sick cfg env beast) (\<lambda>sick.
     if sick then Inr ''sick'' else
     bind (rule_sleepy cfg env beast) (\<lambda>sleepy.
     if sleepy then Inr ''sleepy'' else
     bind (rule_playful cfg env) (\<lambda>playful.
     if playful then Inr ''playful'' else
     bind (rule_happy cfg env beast) (\<lambda>happy.
     if happy then Inr ''happy'' else
     if detect_novelty env beast then Inr ''curious'' else
     bind (rule_bored cfg env beast) (\<lambda>bored.
     if bored then Inr ''bored'' else
     if rule_anxious cfg env beast then Inr ''anxious'' else
     Inr ''calm'')))))))"

subsection \<open>In-place mutation and exceptions\<close>

text \<open>
  The result of a mutating method: the beast as the method leaves it, and the exception it
  raised, if any. \<open>step r f\<close> runs the next block \<open>f\<close> of the method unless an exception is
  already pending; every block used below reads the configuration before it assigns, so a
  block that raises leaves the beast as it found it.
\<close>

type_synonym outcome = "Beast \<times> error option"

definition step :: "outcome \<Rightarrow> (Beast \<Rightarrow> error + Beast) \<Rightarrow> outcome" where
  "step r f =
     (case r of
        (b, Some e) \<Rightarrow> (b, Some e)
      | (b, None) \<Rightarrow> (case f b of Inl e \<Rightarrow> (b, Some e) | Inr b' \<Rightarrow> (b', None)))"

subsection \<open>Needs (\<^verbatim>\<open>MoodEngine.update_needs\<close>)\<close>

definition calculate_drift_rate ::
  "Config \<Rightarrow> string \<Rightarrow> real \<Rightarrow> EnvFeatures \<Rightarrow> Beast \<Rightarrow> error + real" where
  "calculate_drift_rate cfg need base_rate env beast =
     (if need = ''hunger'' then
        bind (getitem (thresholds cfg) ''motion_active_g'') (\<lambda>a.
          Inr (if motion_rms_g env > a then base_rate * 1.5 else base_rate))
      else if need = ''rest'' then
        bind (getitem (thresholds cfg) ''lux_bright'') (\<lambda>b.
          let rate = (if lux env > b then base_rate * 1.2 else base_rate) in
          bind (getitem (thresholds cfg) ''motion_active_g'') (\<lambda>a.
            Inr (if motion_rms_g env > a then rate * 1.3 else rate)))
      else if need = ''social'' then
        Inr (if detect_novelty env beast then base_rate * 0.8 else base_rate)
      else if need = ''hygiene'' then
        bind (is_comfortable_temperature cfg (temp_c env)) (\<lambda>comfortable.
          Inr (if \<not> comfortable then base_rate * 1.2 else base_rate))
      else Inr base_rate)"

text \<open>The dictionary \<^verbatim>\<open>base_rates\<close> built from the needs section.\<close>

definition base_rates :: "Config \<Rightarrow> error + dict" where
  "base_rates cfg =
     bind (getitem (needs_config cfg) ''hunger_base'') (\<lambda>h.
     bind (getitem (needs_config cfg) ''rest_base'') (\<lambda>r.
     bind (getitem (needs_config cfg) ''social_base'') (\<lambda>s.
     bind (getitem (needs_config cfg) ''hygiene_base'') (\<lambda>y.
       Inr [(''hunger'', h), (''rest'', r), (''social'', s), (''hygiene'', y)]))))"

text \<open>One iteration of the drift loop: the drift, then the caregiver's action.\<close>

definition drift_need ::
  "Config \<Rightarrow> EnvFeatures \<Rightarrow> dict \<Rightarrow> real \<Rightarrow> string \<Rightarrow> real \<Rightarrow> Beast \<Rightarrow> error + Beast" where
  "drift_need cfg env actions hours_passed need base_rate beast =
     bind (calculate_drift_rate cfg need base_rate env beast) (\<lambda>drift_rate.
     bind (getitem (needs beast) need) (\<lambda>old.
     bind (getitem (needs_config cfg) ''drift_rate'') (\<lambda>global_rate.
       let drifted = old - drift_rate * hours_passed * global_rate;
           acted = (case map_of actions need of None \<Rightarrow> drifted | Some a \<Rightarrow> drifted + a)
       in Inr (beast\<lparr>needs := AList.update need acted (needs beast)\<rparr>))))"

text \<open>\<^verbatim>\<open>_apply_environmental_satisfaction\<close>, which updates the dictionary it is given in
  place: its two blocks.\<close>

definition satisfy_rest :: "Config \<Rightarrow> EnvFeatures \<Rightarrow> Beast \<Rightarrow> error + Beast" where
  "satisfy_rest cfg env beast =
     bind (and_also (bind (getitem (thresholds cfg) ''lux_dark'') (\<lambda>d. Inr (lux env < d)))
             (bind (getitem (thresholds cfg) ''motion_active_g'')
                (\<lambda>a. Inr (motion_rms_g env < a / 4)))) (\<lambda>quiet.
       if quiet then
         bind (getitem (needs beast) ''rest'') (\<lambda>r.
           Inr (beast\<lparr>needs := AList.update ''rest'' (min 100 (r + 0.5)) (needs beast)\<rparr>))
       else Inr beast)"

definition satisfy_hygiene :: "Config \<Rightarrow> EnvFeatures \<Rightarrow> Beast \<Rightarrow> error + Beast" where
  "satisfy_hygiene cfg env beast =
     bind (and_also (is_comfortable_temperature cfg (temp_c env))
             (Inr (40 < rh env \<and> rh env < 70))) (\<lambda>moderate.
       if moderate then
         bind (getitem (needs beast) ''hygiene'') (\<lambda>h.
           Inr (beast\<lparr>needs := AList.update ''hygiene'' (min 100 (h + 0.2)) (needs beast)\<rparr>))
       else Inr beast)"

definition clamp_needs :: "real \<Rightarrow> Beast \<Rightarrow> error + Beast" where
  "clamp_needs now beast =
     Inr (beast\<lparr>needs := clamp_values 0 100 (needs beast), last_updated := now\<rparr>)"

definition update_needs :: "Config \<Rightarrow> real \<Rightarrow> Beast \<Rightarrow> EnvFeatures \<Rightarrow> dict \<Rightarrow> outcome" where
  "update_needs cfg now beast env actions =
     (let hours_passed = (now - last_updated beast) / 3600 in
      case base_rates cfg of
        Inl e \<Rightarrow> (beast, Some e)
      | Inr rates \<Rightarrow>
          step (step (step
            (foldl (\<lambda>r (need, base_rate).
                      step r (drift_need cfg env actions hours_passed need base_rate))
               (beast, None) rates)
            (satisfy_rest cfg env))
            (satisfy_hygiene cfg env))
            (clamp_needs now))"

subsection \<open>Traits (\<^verbatim>\<open>MoodEngine.tick_traits\<close>)\<close>

definition learning_rate :: real where
  "learning_rate = 0.01"

text \<open>\<^verbatim>\<open>beast.traits[k] += d\<close>.\<close>

definition bump_trait :: "string \<Rightarrow> real \<Rightarrow> Beast \<Rightarrow> error + Beast" where
  "bump_trait k d beast =
     bind (getitem (traits beast) k) (\<lambda>v.
       Inr (beast\<lparr>traits := AList.update k (v + d) (traits beast)\<rparr>))"

definition trait_playful :: "Config \<Rightarrow> EnvFeatures \<Rightarrow> dict \<Rightarrow> Beast \<Rightarrow> error + Beast" where
  "trait_playful cfg env actions beast =
     bind (or_else
             (bind (getitem (thresholds cfg) ''motion_active_g'')
                (\<lambda>a. Inr (motion_rms_g env > a)))
             (Inr (shake_events env > 0 \<or> contains actions ''play''))) (\<lambda>active.
       if active then bump_trait ''playful'' learning_rate beast else Inr beast)"

definition trait_needy :: "Beast \<Rightarrow> error + Beast" where
  "trait_needy beast =
     (if needs beast = [] then Inl ZeroDivisionError
      else
        let avg_need = sum_list (values_of (needs beast)) / real (length (needs beast)) in
        if avg_need < 40 then bump_trait ''needy'' learning_rate beast
        else if avg_need > 70 then bump_trait ''needy'' (- (learning_rate / 2)) beast
        else Inr beast)"

definition trait_rebellious :: "Beast \<Rightarrow> error + Beast" where
  "trait_rebellious beast =
     (if list_ex (\<lambda>need. need < 20) (values_of (needs beast))
      then bump_trait ''rebellious'' learning_rate beast else Inr beast)"

definition trait_social :: "dict \<Rightarrow> Beast \<Rightarrow> error + Beast" where
  "trait_social actions beast =
     (if contains actions ''social_interaction''
      then bump_trait ''social'' learning_rate beast else Inr beast)"

definition trait_explorer :: "EnvFeatures \<Rightarrow> Beast \<Rightarrow> error + Beast" where
  "trait_explorer env beast =
     (if detect_novelty env beast
      then bump_trait ''explorer'' learning_rate beast else Inr beast)"

definition clamp_traits :: "Beast \<Rightarrow> error + Beast" where
  "clamp_traits beast = Inr (beast\<lparr>traits := clamp_values 0 1 (traits beast)\<rparr>)"

definition tick_traits :: "Config \<Rightarrow> EnvFeatures \<Rightarrow> Beast \<Rightarrow> dict \<Rightarrow> outcome" where
  "tick_traits cfg env beast actions =
     step (step (step (step (step (step (beast, None)
       (trait_playful cfg env actions))
       trait_needy)
       trait_rebellious)
       (trait_social actions))
       (trait_explorer env))
       clamp_traits"

subsection \<open>Evolution (\<^verbatim>\<open>MoodEngine.update_evolution\<close>)\<close>

definition exposure_scores :: "Config \<Rightarrow> EnvFeatures \<Rightarrow> error + dict" where
  "exposure_scores cfg env =
     bind (and_also (Inr (lux env > 1000 \<and> temp_c env > 20))
             (bind (getitem (thresholds cfg) ''motion_active_g'')
                (\<lambda>a. Inr (motion_rms_g env > a / 2)))) (\<lambda>sun.
     bind (and_also (bind (getitem (thresholds cfg) ''lux_dark'') (\<lambda>d. Inr (lux env < d)))
             (bind (getitem (thresholds cfg) ''motion_active_g'')
                (\<lambda>a. Inr (motion_rms_g env < a / 4)))) (\<lambda>shadow.
     bind (getitem (thresholds cfg) ''temp_hot'') (\<lambda>hot.
     bind (getitem (thresholds cfg) ''temp_cold'') (\<lambda>cold.
     bind (getitem (thresholds cfg) ''motion_active_g'') (\<lambda>a.
       Inr [(''sun'', if sun then 1 else 0),
            (''shadow'', if shadow then 1 else 0),
            (''ember'', if temp_c env > hot then 1 else 0),
            (''frost'', if temp_c env < cold then 1 else 0),
            (''social'', if motion_rms_g env > a then 0.5 else 0),
            (''lone'', if motion_rms_g env > a then 0 else 0.5)])))))"

text \<open>\<^verbatim>\<open>max(d.items(), key=lambda x: x[1])\<close>: the first item of largest value.\<close>

fun max_item :: "string \<times> real \<Rightarrow> dict \<Rightarrow> string \<times> real" where
  "max_item best [] = best"
| "max_item best (x # xs) = max_item (if snd x > snd best then x else best) xs"

fun max_by_value :: "dict \<Rightarrow> error + string \<times> real" where
  "max_by_value [] = Inl ValueError"
| "max_by_value (x # xs) = Inr (max_item x xs)"

text \<open>\<^verbatim>\<open>max(d.values())\<close>.\<close>

fun max_list :: "real list \<Rightarrow> error + real" where
  "max_list [] = Inl ValueError"
| "max_list (x # xs) = Inr (foldl max x xs)"

text \<open>The path switch with hysteresis (the block after the scores are computed).\<close>

definition switch_path :: "dict \<Rightarrow> Beast \<Rightarrow> error + Beast" where
  "switch_path scores beast =
     (let current_score = get_default scores (evolution_path beast) 0 in
      bind (max_by_value scores) (\<lambda>max_path.
        Inr (if snd max_path > current_score + 0.2
             then beast\<lparr>evolution_path := fst max_path\<rparr> else beast)))"

text \<open>The progression and the stage advance.\<close>

definition progress :: "Config \<Rightarrow> dict \<Rightarrow> Beast \<Rightarrow> error + Beast" where
  "progress cfg scores beast =
     (let progression_rate = get_default (evolution_config cfg) ''progression_rate'' 0.01 in
      bind (max_list (values_of scores)) (\<lambda>best.
        let b = beast\<lparr>evolution_prog :=
                        evolution_prog beast + progression_rate * max best 0.1\<rparr>;
            stage_goal = get_default (evolution_config cfg) ''stage_goal'' 1
        in Inr (if evolution_prog b \<ge> stage_goal \<and> evolution_stage b < 4
                then b\<lparr>evolution_stage := evolution_stage b + 1, evolution_prog := 0\<rparr>
                else b)))"

definition update_evolution :: "Config \<Rightarrow> EnvFeatures \<Rightarrow> Beast \<Rightarrow> outcome" where
  "update_evolution cfg env beast =
     (case exposure_scores cfg env of
        Inl e \<Rightarrow> (beast, Some e)
      | Inr scores \<Rightarrow> step (step (beast, None) (switch_path scores)) (progress cfg scores))"

subsection \<open>Tasks (\<^verbatim>\<open>MoodEngine.generate_tasks\<close>)\<close>

record Task =
  task_type :: string
  action :: string
  description :: string
  reward :: "(string \<times> int) list"

definition feed_task :: Task where
  "feed_task = \<lparr> task_type = ''care'', action = ''feed'',
     description = ''Feed your ByteBeast'', reward = [(''hunger'', 20)] \<rparr>"

definition quiet_time_task :: Task where
  "quiet_time_task = \<lparr> task_type = ''environment'', action = ''quiet_time'',
     description = ''Find a quiet spot for 15 minutes'', reward = [(''rest'', 15)] \<rparr>"

definition meet_peer_task :: Task where
  "meet_peer_task = \<lparr> task_type = ''social'', action = ''meet_peer'',
     description = ''Take your ByteBeast to meet others'', reward = [(''social'', 25)] \<rparr>"

definition clean_task :: Task where
  "clean_task = \<lparr> task_type = ''care'', action = ''clean'',
     description = ''Keep your ByteBeast in comfortable conditions'',
     reward = [(''hygiene'', 20)] \<rparr>"

definition new_location_task :: Task where
  "new_location_task = \<lparr> task_type = ''exploration'', action = ''new_location'',
     description = ''Take your ByteBeast somewhere new'', reward = [(''explorer_xp'', 10)] \<rparr>"

definition play_session_task :: Task where
  "play_session_task = \<lparr> task_type = ''activity'', action = ''play_session'',
     description = ''Have an active play session (shake/move around)'',
     reward = [(''playful_xp'', 10)] \<rparr>"

definition bright_spot_task :: Task where
  "bright_spot_task = \<lparr> task_type = ''environment'', action = ''bright_spot'',
     description = ''Find a bright spot for 10 minutes'', reward = [(''energy'', 10)] \<rparr>"

text \<open>The body of the loop over \<^verbatim>\<open>beast.needs.items()\<close>: what one item appends.\<close>

definition need_task :: "string \<times> real \<Rightarrow> Task list" where
  "need_task item =
     (if snd item < 40 then
        (if fst item = ''hunger'' then [feed_task]
         else if fst item = ''rest'' then [quiet_time_task]
         else if fst item = ''social'' then [meet_peer_task]
         else if fst item = ''hygiene'' then [clean_task]
         else [])
      else [])"

fun need_tasks :: "Task list \<Rightarrow> dict \<Rightarrow> Task list" where
  "need_tasks tasks [] = tasks"
| "need_tasks tasks (item # items) = need_tasks (tasks @ need_task item) items"

definition generate_tasks :: "Beast \<Rightarrow> EnvFeatures \<Rightarrow> error + Task list" where
  "generate_tasks beast env =
     (let tasks1 = need_tasks [] (needs beast) in
      bind (getitem (traits beast) ''explorer'') (\<lambda>explorer.
        let tasks2 = (if explorer > 0.7 then tasks1 @ [new_location_task] else tasks1) in
        bind (getitem (traits beast) ''playful'') (\<lambda>playful.
          let tasks3 = (if playful > 0.7 then tasks2 @ [play_session_task] else tasks2);
              tasks4 = (if lux env < 100 then tasks3 @ [bright_spot_task] else tasks3)
          in Inr (take 3 tasks4))))"

subsection \<open>One tick\<close>

text \<open>
  The pipeline as \<^verbatim>\<open>demo.py\<close>, \<^verbatim>\<open>tests/simulate_day.py\<close> and
  \<^verbatim>\<open>tests/test_integration.py\<close> run it: the caller assigns the inferred mood, then
  needs, traits and evolution are updated, without caregiver actions.
\<close>

definition tick :: "Config \<Rightarrow> real \<Rightarrow> EnvFeatures \<Rightarrow> Beast \<Rightarrow> outcome" where
  "tick cfg now env beast =
     (case infer_mood cfg env beast of
        Inl e \<Rightarrow> (beast, Some e)
      | Inr m \<Rightarrow>
         (case update_needs cfg now (beast\<lparr>mood := m\<rparr>) env [] of
            (b1, Some e) \<Rightarrow> (b1, Some e)
          | (b1, None) \<Rightarrow>
             (case tick_traits cfg env b1 [] of
                (b2, Some e) \<Rightarrow> (b2, Some e)
              | (b2, None) \<Rightarrow> update_evolution cfg env b2)))"

text \<open>
  The pipeline as \<^verbatim>\<open>StateService.run\<close> runs it. The service calls
  \<^verbatim>\<open>tick_traits(self.beast, latest_env)\<close>, with the two arguments in the other order
  than the method declares them, so the method's first read, \<^verbatim>\<open>env.motion_rms_g\<close>,
  is made on the beast and raises \<^verbatim>\<open>AttributeError\<close>; the service catches the
  exception and keeps the beast as the needs update left it.
\<close>

definition service_tick :: "Config \<Rightarrow> real \<Rightarrow> EnvFeatures \<Rightarrow> Beast \<Rightarrow> outcome" where
  "service_tick cfg now env beast =
     (case infer_mood cfg env beast of
        Inl e \<Rightarrow> (beast, Some e)
      | Inr m \<Rightarrow>
         (case update_needs cfg now (beast\<lparr>mood := m\<rparr>) env [] of
            (b1, Some e) \<Rightarrow> (b1, Some e)
          | (b1, None) \<Rightarrow> (b1, Some (AttributeError ''motion_rms_g''))))"

subsection \<open>Runs, frames and reachable states\<close>

text \<open>The loop of \<^verbatim>\<open>test_evolution_progression_scenario\<close>: one evolution update per
  snapshot; an exception ends the run.\<close>

fun run_evolution :: "Config \<Rightarrow> EnvFeatures list \<Rightarrow> Beast \<Rightarrow> outcome" where
  "run_evolution cfg [] beast = (beast, None)"
| "run_evolution cfg (env # envs) beast =
     (case update_evolution cfg env beast of
        (b, None) \<Rightarrow> run_evolution cfg envs b
      | (b, Some e) \<Rightarrow> (b, Some e))"

text \<open>A run of full ticks, each with its clock reading and snapshot; an exception ends it.\<close>

fun run_ticks :: "Config \<Rightarrow> (real \<times> EnvFeatures) list \<Rightarrow> Beast \<Rightarrow> outcome" where
  "run_ticks cfg [] beast = (beast, None)"
| "run_ticks cfg (t # ts) beast =
     (case tick cfg (fst t) (snd t) beast of
        (b, None) \<Rightarrow> run_ticks cfg ts b
      | (b, Some e) \<Rightarrow> (b, Some e))"

text \<open>The service loop: the exception of a tick is logged and the loop goes on with the
  beast as the tick left it.\<close>

fun run_service :: "Config \<Rightarrow> (real \<times> EnvFeatures) list \<Rightarrow> Beast \<Rightarrow> Beast" where
  "run_service cfg [] beast = beast"
| "run_service cfg (t # ts) beast =
     run_service cfg ts (fst (service_tick cfg (fst t) (snd t) beast))"

text \<open>A beast with the fields an operation may assign blanked out: two beasts with the same
  image differ at most in those fields.\<close>

definition outside_needs :: "Beast \<Rightarrow> Beast" where
  "outside_needs b = b\<lparr>needs := [], last_updated := 0\<rparr>"

definition outside_traits :: "Beast \<Rightarrow> Beast" where
  "outside_traits b = b\<lparr>traits := []\<rparr>"

definition outside_evolution :: "Beast \<Rightarrow> Beast" where
  "outside_evolution b =
     b\<lparr>evolution_path := [], evolution_stage := 0, evolution_prog := 0\<rparr>"

text \<open>The beasts the program builds: made by the constructor or by
  \<^verbatim>\<open>create_default_beast\<close>, then passed through the engine and given a mood by the
  caller.\<close>

inductive constructed :: "Beast \<Rightarrow> bool" where
  by_init: "constructed (Beast_init m n t p s g e u)"
| by_default: "constructed (create_default_beast now)"
| by_mood: "constructed b \<Longrightarrow> constructed (b\<lparr>mood := m\<rparr>)"
| by_needs: "constructed b \<Longrightarrow> constructed (fst (update_needs cfg now b env actions))"
| by_traits: "constructed b \<Longrightarrow> constructed (fst (tick_traits cfg env b actions))"
| by_evolution: "constructed b \<Longrightarrow> constructed (fst (update_evolution cfg env b))"

text \<open>The documented ranges of the state (the comments of \<^verbatim>\<open>Beast\<close> and the clamps of
  \<^verbatim>\<open>__post_init__\<close>).\<close>

definition needs_in_range :: "Beast \<Rightarrow> bool" where
  "needs_in_range b = list_all (\<lambda>v. 0 \<le> v \<and> v \<le> 100) (values_of (needs b))"

definition traits_in_range :: "Beast \<Rightarrow> bool" where
  "traits_in_range b = list_all (\<lambda>v. 0 \<le> v \<and> v \<le> 1) (values_of (traits b))"

definition stage_in_range :: "Beast \<Rightarrow> bool" where
  "stage_in_range b = (1 \<le> evolution_stage b \<and> evolution_stage b \<le> 4)"

definition prog_in_range :: "Beast \<Rightarrow> bool" where
  "prog_in_range b = (0 \<le> evolution_prog b \<and> evolution_prog b \<le> 1)"

definition state_invariant :: "Beast \<Rightarrow> bool" where
  "state_invariant b =
     (needs_in_range b \<and> traits_in_range b \<and> stage_in_range b \<and> prog_in_range b)"

text \<open>The part of the invariant that every completed update keeps.\<close>

definition ranges_kept :: "Beast \<Rightarrow> bool" where
  "ranges_kept b = (needs_in_range b \<and> traits_in_range b \<and> stage_in_range b)"

text \<open>Any interleaving of the three updates; an exception ends the run.\<close>

datatype update =
    Update_needs real EnvFeatures dict
  | Tick_traits EnvFeatures dict
  | Update_evolution EnvFeatures

fun apply_update :: "Config \<Rightarrow> update \<Rightarrow> Beast \<Rightarrow> outcome" where
  "apply_update cfg (Update_needs now env actions) b = update_needs cfg now b env actions"
| "apply_update cfg (Tick_traits env actions) b = tick_traits cfg env b actions"
| "apply_update cfg (Update_evolution env) b = update_evolution cfg env b"

fun run_updates :: "Config \<Rightarrow> update list \<Rightarrow> Beast \<Rightarrow> outcome" where
  "run_updates cfg [] beast = (beast, None)"
| "run_updates cfg (u # us) beast =
     (case apply_update cfg u beast of
        (b, None) \<Rightarrow> run_updates cfg us b
      | (b, Some e) \<Rightarrow> (b, Some e))"

text \<open>The keys of \<^verbatim>\<open>EVOLUTION_PATHS\<close>.\<close>

definition evolution_paths :: "string list" where
  "evolution_paths = [''sun'', ''shadow'', ''ember'', ''frost'', ''social'', ''lone'']"

text \<open>The keys of the two dictionaries, in the order in which the default factories of
  \<^verbatim>\<open>Beast\<close> and \<^verbatim>\<open>create_default_beast\<close> write them.\<close>

definition need_keys :: "string list" where
  "need_keys = [''hunger'', ''rest'', ''social'', ''hygiene'']"

definition trait_keys :: "string list" where
  "trait_keys = [''playful'', ''needy'', ''rebellious'', ''social'', ''explorer'']"

text \<open>The beasts whose dictionaries iterate in that order: built by the constructor from
  dictionaries in that order (the default factories, \<^verbatim>\<open>create_default_beast\<close>, a
  snapshot of such a beast restored by \<^verbatim>\<open>load_latest_beast_state\<close>), then passed
  through the engine and given a mood by the caller.\<close>

inductive built_in_order :: "Beast \<Rightarrow> bool" where
  init_in_order:
    "map fst n = need_keys \<Longrightarrow> map fst t = trait_keys
       \<Longrightarrow> built_in_order (Beast_init m n t p s g e u)"
| mood_in_order: "built_in_order b \<Longrightarrow> built_in_order (b\<lparr>mood := m\<rparr>)"
| needs_in_order:
    "built_in_order b \<Longrightarrow> built_in_order (fst (update_needs cfg now b env actions))"
| traits_in_order:
    "built_in_order b \<Longrightarrow> built_in_order (fst (tick_traits cfg env b actions))"
| evolution_in_order:
    "built_in_order b \<Longrightarrow> built_in_order (fst (update_evolution cfg env b))"

text \<open>The iteration order of the two dictionaries of a beast.\<close>

definition key_order :: "Beast \<Rightarrow> string list \<times> string list" where
  "key_order b = (map fst (needs b), map fst (traits b))"

text \<open>The thresholds that \<^verbatim>\<open>update_evolution\<close> reads by subscript.\<close>

definition evolution_keys_present :: "Config \<Rightarrow> bool" where
  "evolution_keys_present cfg =
     list_all (contains (thresholds cfg))
       [''motion_active_g'', ''lux_dark'', ''temp_hot'', ''temp_cold'']"

subsection \<open>Example inputs\<close>

text \<open>
  A configuration with every key the engine reads, except the three it reads with a
  built-in default (\<^verbatim>\<open>pressure_stable\<close>, \<^verbatim>\<open>progression_rate\<close>,
  \<^verbatim>\<open>stage_goal\<close>). The hot and cold thresholds are the ones the tests name (30 and 10);
  the other values are examples.
\<close>

definition example_config :: Config where
  "example_config =
     \<lparr> thresholds = [(''temp_hot'', 30), (''temp_cold'', 10), (''lux_dark'', 100),
                     (''lux_bright'', 5000), (''motion_active_g'', 0.2)],
       needs_config = [(''hunger_base'', 2), (''rest_base'', 1.5), (''social_base'', 1),
                       (''hygiene_base'', 0.5), (''drift_rate'', 1)],
       evolution_config = [],
       power_config = [(''low_voltage'', 3.4)] \<rparr>"

text \<open>The snapshot of \<^verbatim>\<open>test_calm_fallback\<close>.\<close>

definition calm_env :: EnvFeatures where
  "calm_env =
     \<lparr> lux = 1000, cct_k = 5000, temp_c = 20, rh = 50, pressure_hpa = 1013,
       pressure_trend = 0, motion_rms_g = 0.1, shake_events = 0, heading_deg = 180,
       roll = 0, pitch = 0, yaw = 0, vbat = 4, ibat = 100, pwr_w = 0.4, charging = False,
       ssid_fingerprint = ''test'', timestamp = 0 \<rparr>"

text \<open>The sun-favouring snapshot of \<^verbatim>\<open>test_evolution_progression\<close>.\<close>

definition sun_env :: EnvFeatures where
  "sun_env = calm_env\<lparr>temp_c := 25, lux := 8000, motion_rms_g := 0.3\<rparr>"

text \<open>A beast at the last stage with its progress at the top of the documented range, as
  the constructor accepts it and as a restored snapshot can hold it.\<close>

definition stage4_beast :: Beast where
  "stage4_beast =
     Beast_init ''calm''
       [(''hunger'', 75), (''rest'', 60), (''social'', 50), (''hygiene'', 80)]
       [(''playful'', 0.5), (''needy'', 0.3), (''rebellious'', 0.2), (''social'', 0.4),
        (''explorer'', 0.6)]
       ''sun'' 4 1 100 0"

text \<open>The configuration the program runs with when no file defines any key:
  \<^verbatim>\<open>Config.load_config\<close> leaves the dictionary empty when the defaults file does not
  exist.\<close>

definition empty_config :: Config where
  "empty_config =
     \<lparr> thresholds = [], needs_config = [], evolution_config = [], power_config = [] \<rparr>"

text \<open>The beast of the task example: hunger 20, the other needs 80.\<close>

definition hungry_beast :: Beast where
  "hungry_beast =
     Beast_init ''calm''
       [(''hunger'', 20), (''rest'', 80), (''social'', 80), (''hygiene'', 80)]
       [(''playful'', 0.5), (''needy'', 0.3), (''rebellious'', 0.2), (''social'', 0.4),
        (''explorer'', 0.6)]
       ''sun'' 1 0 100 0"

text \<open>A beast whose needs dictionary was written in another order, every need at 10.\<close>

definition reversed_beast :: Beast where
  "reversed_beast =
     Beast_init ''calm''
       [(''hygiene'', 10), (''social'', 10), (''rest'', 10), (''hunger'', 10)]
       [(''playful'', 0.5), (''needy'', 0.3), (''rebellious'', 0.2), (''social'', 0.4),
        (''explorer'', 0.6)]
       ''sun'' 1 0 100 0"

text \<open>The example configuration with a progression rate of 0.2.\<close>

definition fast_config :: Config where
  "fast_config = example_config\<lparr>evolution_config := [(''progression_rate'', 0.2)]\<rparr>"

section \<open>Properties\<close>

subsection \<open>Sequencing\<close>

lemma bindE:
  assumes "bind r f = Inr y"
  obtains v where "r = Inr v" and "f v = Inr y"
  using assms by (cases r) (auto simp: bind_def)

lemma step_preserves:
  assumes "\<And>b b'. f b = Inr b' \<Longrightarrow> g b' = g b"
  shows "g (fst (step r f)) = g (fst r)"
  using assms by (auto simp: step_def split: prod.splits option.splits sum.splits)

subsection \<open>What each operation leaves alone\<close>

lemma drift_need_frame:
  "drift_need cfg env actions h need base b = Inr b' \<Longrightarrow> outside_needs b' = outside_needs b"
  unfolding drift_need_def outside_needs_def by (auto elim!: bindE simp: Let_def)

lemma satisfy_rest_frame:
  "satisfy_rest cfg env b = Inr b' \<Longrightarrow> outside_needs b' = outside_needs b"
  unfolding satisfy_rest_def outside_needs_def by (auto elim!: bindE split: if_splits)

lemma satisfy_hygiene_frame:
  "satisfy_hygiene cfg env b = Inr b' \<Longrightarrow> outside_needs b' = outside_needs b"
  unfolding satisfy_hygiene_def outside_needs_def by (auto elim!: bindE split: if_splits)

lemma clamp_needs_frame:
  "clamp_needs now b = Inr b' \<Longrightarrow> outside_needs b' = outside_needs b"
  unfolding clamp_needs_def outside_needs_def by auto

lemma drift_loop_frame:
  "outside_needs (fst (foldl (\<lambda>r (need, base_rate).
      step r (drift_need cfg env actions h need base_rate)) r rates)) = outside_needs (fst r)"
proof (induction rates arbitrary: r)
  case Nil
  show ?case by simp
next
  case (Cons x xs)
  obtain need base where x: "x = (need, base)" by (cases x)
  show ?case
    by (simp add: x Cons.IH step_preserves [where g = outside_needs, OF drift_need_frame])
qed

lemma update_needs_frame:
  "outside_needs (fst (update_needs cfg now b env actions)) = outside_needs b"
proof (cases "base_rates cfg")
  case (Inl e)
  then show ?thesis by (simp add: update_needs_def)
next
  case (Inr rates)
  then show ?thesis
    by (simp add: update_needs_def drift_loop_frame
        step_preserves [where g = outside_needs, OF satisfy_rest_frame]
        step_preserves [where g = outside_needs, OF satisfy_hygiene_frame]
        step_preserves [where g = outside_needs, OF clamp_needs_frame])
qed

lemma bump_trait_frame:
  "bump_trait k d b = Inr b' \<Longrightarrow> outside_traits b' = outside_traits b"
  unfolding bump_trait_def outside_traits_def by (auto elim!: bindE)

lemma trait_playful_frame:
  "trait_playful cfg env actions b = Inr b' \<Longrightarrow> outside_traits b' = outside_traits b"
  unfolding trait_playful_def by (auto elim!: bindE dest: bump_trait_frame split: if_splits)

lemma trait_needy_frame:
  "trait_needy b = Inr b' \<Longrightarrow> outside_traits b' = outside_traits b"
  unfolding trait_needy_def by (auto simp: Let_def dest: bump_trait_frame split: if_splits)

lemma trait_rebellious_frame:
  "trait_rebellious b = Inr b' \<Longrightarrow> outside_traits b' = outside_traits b"
  unfolding trait_rebellious_def by (auto dest: bump_trait_frame split: if_splits)

lemma trait_social_frame:
  "trait_social actions b = Inr b' \<Longrightarrow> outside_traits b' = outside_traits b"
  unfolding trait_social_def by (auto dest: bump_trait_frame split: if_splits)

lemma trait_explorer_frame:
  "trait_explorer env b = Inr b' \<Longrightarrow> outside_traits b' = outside_traits b"
  unfolding trait_explorer_def by (auto dest: bump_trait_frame split: if_splits)

lemma clamp_traits_frame:
  "clamp_traits b = Inr b' \<Longrightarrow> outside_traits b' = outside_traits b"
  unfolding clamp_traits_def outside_traits_def by auto

lemma tick_traits_frame:
  "outside_traits (fst (tick_traits cfg env b actions)) = outside_traits b"
  by (simp add: tick_traits_def
      step_preserves [where g = outside_traits, OF trait_playful_frame]
      step_preserves [where g = outside_traits, OF trait_needy_frame]
      step_preserves [where g = outside_traits, OF trait_rebellious_frame]
      step_preserves [where g = outside_traits, OF trait_social_frame]
      step_preserves [where g = outside_traits, OF trait_explorer_frame]
      step_preserves [where g = outside_traits, OF clamp_traits_frame])

lemma switch_path_frame:
  "switch_path scores b = Inr b' \<Longrightarrow> outside_evolution b' = outside_evolution b"
  unfolding switch_path_def outside_evolution_def
  by (auto elim!: bindE simp: Let_def split: if_splits)

lemma progress_frame:
  "progress cfg scores b = Inr b' \<Longrightarrow> outside_evolution b' = outside_evolution b"
  unfolding progress_def outside_evolution_def
  by (auto elim!: bindE simp: Let_def split: if_splits)

lemma update_evolution_frame:
  "outside_evolution (fst (update_evolution cfg env b)) = outside_evolution b"
  by (cases "exposure_scores cfg env")
     (simp_all add: update_evolution_def
        step_preserves [where g = outside_evolution, OF switch_path_frame]
        step_preserves [where g = outside_evolution, OF progress_frame])

lemma update_needs_keeps:
  "energy (fst (update_needs cfg now b env actions)) = energy b"
  "mood (fst (update_needs cfg now b env actions)) = mood b"
  using update_needs_frame [of cfg now b env actions]
  by (auto simp: outside_needs_def dest: arg_cong [where f = energy] arg_cong [where f = mood])

lemma tick_traits_keeps:
  "energy (fst (tick_traits cfg env b actions)) = energy b"
  "mood (fst (tick_traits cfg env b actions)) = mood b"
  using tick_traits_frame [of cfg env b actions]
  by (auto simp: outside_traits_def dest: arg_cong [where f = energy] arg_cong [where f = mood])

lemma update_evolution_keeps:
  "energy (fst (update_evolution cfg env b)) = energy b"
  "mood (fst (update_evolution cfg env b)) = mood b"
  using update_evolution_frame [of cfg env b]
  by (auto simp: outside_evolution_def dest: arg_cong [where f = energy] arg_cong [where f = mood])

lemma tick_energy: "energy (fst (tick cfg now env b)) = energy b"
proof (cases "infer_mood cfg env b")
  case (Inl e)
  then show ?thesis by (simp add: tick_def)
next
  case (Inr m)
  obtain b1 o1 where r1: "update_needs cfg now (b\<lparr>mood := m\<rparr>) env [] = (b1, o1)"
    by (cases "update_needs cfg now (b\<lparr>mood := m\<rparr>) env []")
  have e1: "energy b1 = energy b"
    using update_needs_keeps(1) [of cfg now "b\<lparr>mood := m\<rparr>" env "[]"] r1 by simp
  obtain b2 o2 where r2: "tick_traits cfg env b1 [] = (b2, o2)"
    by (cases "tick_traits cfg env b1 []")
  have e2: "energy b2 = energy b1"
    using tick_traits_keeps(1) [of cfg env b1 "[]"] r2 by simp
  show ?thesis
    using Inr r1 r2 e1 e2
    by (cases o1; cases o2) (simp_all add: tick_def update_evolution_keeps)
qed

lemma service_tick_energy: "energy (fst (service_tick cfg now env b)) = energy b"
proof (cases "infer_mood cfg env b")
  case (Inl e)
  then show ?thesis by (simp add: service_tick_def)
next
  case (Inr m)
  obtain b1 o1 where r1: "update_needs cfg now (b\<lparr>mood := m\<rparr>) env [] = (b1, o1)"
    by (cases "update_needs cfg now (b\<lparr>mood := m\<rparr>) env []")
  have e1: "energy b1 = energy b"
    using update_needs_keeps(1) [of cfg now "b\<lparr>mood := m\<rparr>" env "[]"] r1 by simp
  show ?thesis
    using Inr r1 e1 by (cases o1) (simp_all add: service_tick_def)
qed

lemma run_ticks_energy: "energy (fst (run_ticks cfg ts b)) = energy b"
proof (induction ts arbitrary: b)
  case Nil
  show ?case by simp
next
  case (Cons t ts)
  have "energy (fst (tick cfg (fst t) (snd t) b)) = energy b" by (rule tick_energy)
  then show ?case
    by (cases "tick cfg (fst t) (snd t) b") (auto simp: Cons.IH split: option.splits)
qed

lemma run_service_energy: "energy (run_service cfg ts b) = energy b"
  by (induction ts arbitrary: b) (simp_all add: service_tick_energy)

lemma constructed_no_history:
  "constructed b \<Longrightarrow> attr_last_fingerprint b = None \<and> attr_last_lux b = None"
proof (induction rule: constructed.induct)
  case (by_init m n t p s g e u)
  show ?case by (simp add: Beast_init_def)
next
  case (by_default now)
  show ?case by (simp add: create_default_beast_def Beast_init_def)
next
  case (by_mood b m)
  then show ?case by simp
next
  case (by_needs b cfg now env actions)
  then show ?case
    using update_needs_frame [of cfg now b env actions]
    by (auto simp: outside_needs_def dest: arg_cong [where f = attr_last_fingerprint]
        arg_cong [where f = attr_last_lux])
next
  case (by_traits b cfg env actions)
  then show ?case
    using tick_traits_frame [of cfg env b actions]
    by (auto simp: outside_traits_def dest: arg_cong [where f = attr_last_fingerprint]
        arg_cong [where f = attr_last_lux])
next
  case (by_evolution b cfg env)
  then show ?case
    using update_evolution_frame [of cfg env b]
    by (auto simp: outside_evolution_def dest: arg_cong [where f = attr_last_fingerprint]
        arg_cong [where f = attr_last_lux])
qed

lemma energy_default: "energy (create_default_beast now) = 100"
  by (simp add: create_default_beast_def Beast_init_def)

subsection \<open>Ranges kept by the updates\<close>

lemma step_NoneE:
  assumes "step r f = (b', None)"
  obtains b where "r = (b, None)" and "f b = Inr b'"
  using assms by (auto simp: step_def split: prod.splits option.splits sum.splits)

lemma clamp_values_in_range:
  "lo \<le> hi \<Longrightarrow> list_all (\<lambda>v. lo \<le> v \<and> v \<le> hi) (values_of (clamp_values lo hi d))"
  by (induction d) (auto simp: values_of_def clamp_values_def clamp_def)

lemma Beast_init_invariant: "state_invariant (Beast_init m n t p s g e u)"
  using clamp_values_in_range [of 0 100 n] clamp_values_in_range [of 0 1 t]
  by (simp add: state_invariant_def needs_in_range_def traits_in_range_def stage_in_range_def
      prog_in_range_def Beast_init_def)

lemma update_needs_in_range:
  assumes "update_needs cfg now b env actions = (b', None)"
  shows "needs_in_range b'"
proof (cases "base_rates cfg")
  case (Inl e)
  with assms show ?thesis by (simp add: update_needs_def)
next
  case (Inr rates)
  with assms obtain b0 where "clamp_needs now b0 = Inr b'"
    by (auto simp: update_needs_def elim: step_NoneE)
  then show ?thesis
    using clamp_values_in_range [of 0 100 "needs b0"]
    by (auto simp: clamp_needs_def needs_in_range_def)
qed

lemma tick_traits_in_range:
  assumes "tick_traits cfg env b actions = (b', None)"
  shows "traits_in_range b'"
proof -
  from assms obtain b0 where "clamp_traits b0 = Inr b'"
    by (auto simp: tick_traits_def elim: step_NoneE)
  then show ?thesis
    using clamp_values_in_range [of 0 1 "traits b0"]
    by (auto simp: clamp_traits_def traits_in_range_def)
qed

lemma switch_path_stage:
  "switch_path scores b = Inr b' \<Longrightarrow> stage_in_range b \<Longrightarrow> stage_in_range b'"
  by (auto simp: switch_path_def Let_def stage_in_range_def elim!: bindE split: if_splits)

lemma progress_stage:
  "progress cfg scores b = Inr b' \<Longrightarrow> stage_in_range b \<Longrightarrow> stage_in_range b'"
  by (auto simp: progress_def Let_def stage_in_range_def elim!: bindE split: if_splits)

lemma update_evolution_stage:
  assumes "stage_in_range b"
  shows "stage_in_range (fst (update_evolution cfg env b))"
proof (cases "exposure_scores cfg env")
  case (Inl e)
  with assms show ?thesis by (simp add: update_evolution_def)
next
  case (Inr scores)
  have "stage_in_range (fst (step r (switch_path scores)))"
    and "stage_in_range (fst (step r (progress cfg scores)))"
    if "stage_in_range (fst r)" for r
    using that
    by (auto simp: step_def split: prod.splits option.splits sum.splits
        dest: switch_path_stage progress_stage)
  with Inr assms show ?thesis by (simp add: update_evolution_def)
qed

lemma needs_outside_traits: "outside_traits b' = outside_traits b \<Longrightarrow>
   needs b' = needs b \<and> evolution_stage b' = evolution_stage b \<and> evolution_prog b' = evolution_prog b"
  by (auto simp: outside_traits_def dest: arg_cong [where f = needs]
      arg_cong [where f = evolution_stage] arg_cong [where f = evolution_prog])

lemma traits_outside_needs: "outside_needs b' = outside_needs b \<Longrightarrow>
   traits b' = traits b \<and> evolution_stage b' = evolution_stage b \<and> evolution_prog b' = evolution_prog b"
  by (auto simp: outside_needs_def dest: arg_cong [where f = traits]
      arg_cong [where f = evolution_stage] arg_cong [where f = evolution_prog])

lemma dicts_outside_evolution: "outside_evolution b' = outside_evolution b \<Longrightarrow>
   traits b' = traits b \<and> needs b' = needs b"
  by (auto simp: outside_evolution_def dest: arg_cong [where f = traits]
      arg_cong [where f = needs])

lemma apply_update_ranges:
  assumes "ranges_kept b" and "apply_update cfg u b = (b', None)"
  shows "ranges_kept b'"
proof (cases u)
  case (Update_needs now env actions)
  with assms(2) have r: "update_needs cfg now b env actions = (b', None)" by simp
  have "outside_needs b' = outside_needs b"
    using update_needs_frame [of cfg now b env actions] r by simp
  with assms(1) update_needs_in_range [OF r] show ?thesis
    by (auto simp: ranges_kept_def traits_in_range_def stage_in_range_def
        dest: traits_outside_needs)
next
  case (Tick_traits env actions)
  with assms(2) have r: "tick_traits cfg env b actions = (b', None)" by simp
  have "outside_traits b' = outside_traits b"
    using tick_traits_frame [of cfg env b actions] r by simp
  with assms(1) tick_traits_in_range [OF r] show ?thesis
    by (auto simp: ranges_kept_def needs_in_range_def stage_in_range_def
        dest: needs_outside_traits)
next
  case (Update_evolution env)
  with assms(2) have r: "update_evolution cfg env b = (b', None)" by simp
  have "outside_evolution b' = outside_evolution b"
    using update_evolution_frame [of cfg env b] r by simp
  moreover have "stage_in_range b'"
    using update_evolution_stage [of b cfg env] assms(1) r by (simp add: ranges_kept_def)
  ultimately show ?thesis
    using assms(1)
    by (auto simp: ranges_kept_def needs_in_range_def traits_in_range_def
        dest: dicts_outside_evolution)
qed

lemma run_updates_ranges:
  "ranges_kept b \<Longrightarrow> run_updates cfg us b = (b', None) \<Longrightarrow> ranges_kept b'"
proof (induction us arbitrary: b)
  case Nil
  then show ?case by simp
next
  case (Cons u us)
  obtain b1 o1 where a: "apply_update cfg u b = (b1, o1)" by (cases "apply_update cfg u b")
  with Cons.prems(2) have o1: "o1 = None" by (cases o1) auto
  with a Cons.prems have "ranges_kept b1" by (auto intro: apply_update_ranges)
  with Cons.IH [of b1] Cons.prems(2) a o1 show ?case by simp
qed

lemma progress_prog_below_last_stage:
  assumes "progress cfg scores b = Inr b'" and "evolution_stage b < 4" and "prog_in_range b"
    and "0 \<le> get_default (evolution_config cfg) ''progression_rate'' 0.01"
    and "get_default (evolution_config cfg) ''stage_goal'' 1 \<le> 1"
  shows "prog_in_range b'"
proof -
  from assms(1) obtain best where
    b': "b' = (let b1 = b\<lparr>evolution_prog := evolution_prog b
                 + get_default (evolution_config cfg) ''progression_rate'' 0.01 * max best 0.1\<rparr>
             in if evolution_prog b1 \<ge> get_default (evolution_config cfg) ''stage_goal'' 1
                   \<and> evolution_stage b1 < 4
                then b1\<lparr>evolution_stage := evolution_stage b1 + 1, evolution_prog := 0\<rparr>
                else b1)"
    by (auto simp: progress_def Let_def elim!: bindE)
  have "0 \<le> get_default (evolution_config cfg) ''progression_rate'' 0.01 * max best 0.1"
    using assms(4) by (intro mult_nonneg_nonneg) auto
  with assms(2,3,5) show ?thesis
    unfolding b' by (auto simp: prog_in_range_def Let_def)
qed

lemma update_evolution_prog_below_last_stage:
  assumes "evolution_stage b < 4" and "prog_in_range b"
    and "0 \<le> get_default (evolution_config cfg) ''progression_rate'' 0.01"
    and "get_default (evolution_config cfg) ''stage_goal'' 1 \<le> 1"
  shows "prog_in_range (fst (update_evolution cfg env b))"
proof (cases "exposure_scores cfg env")
  case (Inl e)
  with assms show ?thesis by (simp add: update_evolution_def)
next
  case (Inr scores)
  obtain b1 o1 where s1: "step (b, None) (switch_path scores) = (b1, o1)"
    by (cases "step (b, None) (switch_path scores)")
  have k: "evolution_stage b1 = evolution_stage b \<and> evolution_prog b1 = evolution_prog b"
    using s1
    by (auto simp: step_def switch_path_def Let_def elim!: bindE
        split: sum.splits if_splits)
  then have p1: "evolution_stage b1 < 4" "prog_in_range b1"
    using assms(1,2) by (simp_all add: prog_in_range_def)
  have "prog_in_range (fst (step (b1, o1) (progress cfg scores)))"
    using p1 assms(3,4)
    by (auto simp: step_def split: option.splits sum.splits
        dest: progress_prog_below_last_stage)
  with Inr s1 show ?thesis by (simp add: update_evolution_def)
qed

lemma builtin_defaults_used:
  assumes "map_of (thresholds cfg) ''pressure_stable'' = None"
  shows "is_environmental_extreme cfg env \<longleftrightarrow>
           \<bar>pressure_trend env\<bar> > 4 \<or> rh env > 90 \<or> rh env < 10"
    and "is_environment_unstable cfg env \<longleftrightarrow> \<bar>pressure_trend env\<bar> > 2 \<or> shake_events env > 3"
  using assms
  by (simp_all add: is_environmental_extreme_def is_environment_unstable_def get_default_def)

subsection \<open>Exposure scores and their maximum\<close>

lemma max_item_mem: "max_item best xs \<in> set (best # xs)"
  by (induction xs arbitrary: best) auto

lemma max_item_ge_start: "snd best \<le> snd (max_item best xs)"
proof (induction xs arbitrary: best)
  case Nil
  show ?case by simp
next
  case (Cons y ys)
  show ?case
    using Cons [of y] Cons [of best] by (auto split: if_splits)
qed

lemma max_item_ge: "x \<in> set (best # xs) \<Longrightarrow> snd x \<le> snd (max_item best xs)"
proof (induction xs arbitrary: best)
  case Nil
  then show ?case by simp
next
  case (Cons y ys)
  show ?case
  proof (cases "x \<in> set ys")
    case True
    then show ?thesis using Cons.IH [of "if snd y > snd best then y else best"] by simp
  next
    case False
    with Cons.prems have "x = best \<or> x = y" by auto
    then show ?thesis
      using max_item_ge_start [of "if snd y > snd best then y else best" ys]
      by (auto split: if_splits)
  qed
qed

lemma foldl_max_item: "foldl max (snd best) (map snd xs) = snd (max_item best xs)"
  by (induction xs arbitrary: best) (auto simp: max_def)

lemma max_list_max_by_value:
  "max_by_value d = Inr mp \<Longrightarrow> max_list (values_of d) = Inr (snd mp)"
  by (cases d) (auto simp: values_of_def foldl_max_item)

lemma exposure_scores_shape:
  assumes "exposure_scores cfg env = Inr scores"
  shows "\<exists>s1 s2 s3 s4 m.
    scores = [(''sun'', s1), (''shadow'', s2), (''ember'', s3), (''frost'', s4),
              (''social'', if m then 0.5 else 0), (''lone'', if m then 0 else 0.5)]
    \<and> s1 \<in> {0, 1} \<and> s2 \<in> {0, 1} \<and> s3 \<in> {0, 1} \<and> s4 \<in> {0, 1}"
proof -
  from assms obtain sun shadow hot cold a where
    "scores = [(''sun'', if sun then 1 else 0),
            (''shadow'', if shadow then 1 else 0),
            (''ember'', if temp_c env > hot then 1 else 0),
            (''frost'', if temp_c env < cold then 1 else 0),
            (''social'', if motion_rms_g env > a then 0.5 else 0),
            (''lone'', if motion_rms_g env > a then 0 else 0.5)]"
    unfolding exposure_scores_def by (elim bindE) auto
  then show ?thesis
    by (intro exI [where x = "if sun then 1 else 0"] exI [where x = "if shadow then 1 else 0"]
        exI [where x = "if temp_c env > hot then 1 else 0"]
        exI [where x = "if temp_c env < cold then 1 else 0"]
        exI [where x = "motion_rms_g env > a"]) simp
qed

lemma exposure_scores_total:
  "(\<exists>scores. exposure_scores cfg env = Inr scores) \<longleftrightarrow> evolution_keys_present cfg"
  by (auto simp: exposure_scores_def evolution_keys_present_def contains_def bind_def
      and_also_def getitem_def split: option.splits)

lemma scores_distinct:
  assumes "exposure_scores cfg env = Inr scores"
  shows "map fst scores = evolution_paths" and "distinct (map fst scores)"
  using exposure_scores_shape [OF assms] by (auto simp: evolution_paths_def)

lemma scores_best:
  assumes "exposure_scores cfg env = Inr scores"
  obtains best where "max_by_value scores = Inr best" and "best \<in> set scores"
    and "list_all (\<lambda>item. snd item \<le> snd best) scores"
    and "1 / 2 \<le> snd best" and "snd best \<le> 1" and "fst best \<in> set evolution_paths"
proof -
  from exposure_scores_shape [OF assms] obtain s1 s2 s3 s4 m where
    sc: "scores = [(''sun'', s1), (''shadow'', s2), (''ember'', s3), (''frost'', s4),
              (''social'', if m then 0.5 else 0), (''lone'', if m then 0 else 0.5)]"
    and r: "s1 \<in> {0, 1}" "s2 \<in> {0, 1}" "s3 \<in> {0, 1}" "s4 \<in> {0, 1}"
    by blast
  define x where "x = (''sun'', s1)"
  define xs where "xs = [(''shadow'', s2), (''ember'', s3), (''frost'', s4),
              (''social'', if m then 0.5 else 0), (''lone'', if m then 0 else (0.5::real))]"
  define best where "best = max_item x xs"
  have sc': "scores = x # xs" by (simp add: sc x_def xs_def)
  have 1: "max_by_value scores = Inr best" by (simp add: sc' best_def)
  have 2: "best \<in> set scores" unfolding sc' best_def by (rule max_item_mem)
  have 3: "list_all (\<lambda>item. snd item \<le> snd best) scores"
    unfolding list_all_iff sc' best_def using max_item_ge [of _ x xs] by blast
  have "(''social'', if m then 0.5 else 0) \<in> set scores"
    "(''lone'', if m then 0 else 0.5) \<in> set scores"
    by (simp_all add: sc)
  with 3 have 4: "1 / 2 \<le> snd best"
    unfolding list_all_iff by (cases m) fastforce+
  have 5: "snd best \<le> 1" using 2 r unfolding sc by auto
  have 6: "fst best \<in> set evolution_paths"
    using 2 unfolding sc evolution_paths_def by auto
  show ?thesis using that 1 2 3 4 5 6 by blast
qed

lemma update_evolution_result:
  assumes "exposure_scores cfg env = Inr scores" and "max_by_value scores = Inr best"
  shows "update_evolution cfg env b =
    (let b1 = (if snd best > get_default scores (evolution_path b) 0 + 0.2
               then b\<lparr>evolution_path := fst best\<rparr> else b);
         b2 = b1\<lparr>evolution_prog := evolution_prog b1
                + get_default (evolution_config cfg) ''progression_rate'' 0.01
                  * max (snd best) 0.1\<rparr>
     in if evolution_prog b2 \<ge> get_default (evolution_config cfg) ''stage_goal'' 1
           \<and> evolution_stage b2 < 4
        then (b2\<lparr>evolution_stage := evolution_stage b2 + 1, evolution_prog := 0\<rparr>, None)
        else (b2, None))"
  using assms max_list_max_by_value [OF assms(2)]
  by (simp add: update_evolution_def step_def switch_path_def progress_def bind_def Let_def)

lemma example_scores:
  "exposure_scores example_config sun_env =
     Inr [(''sun'', 1), (''shadow'', 0), (''ember'', 0), (''frost'', 0), (''social'', 0.5),
          (''lone'', 0)]"
  "exposure_scores example_config calm_env =
     Inr [(''sun'', 0), (''shadow'', 0), (''ember'', 0), (''frost'', 0), (''social'', 0),
          (''lone'', 0.5)]"
  by (simp_all add: exposure_scores_def example_config_def sun_env_def calm_env_def bind_def
      and_also_def getitem_def)

lemma example_keys_present: "evolution_keys_present example_config"
  by (simp add: evolution_keys_present_def example_config_def contains_def)

subsection \<open>Progress over a run of evolution updates\<close>

lemma run_evolution_append:
  "run_evolution cfg (xs @ ys) b =
     (case run_evolution cfg xs b of
        (b', None) \<Rightarrow> run_evolution cfg ys b'
      | (b', Some e) \<Rightarrow> (b', Some e))"
  by (induction xs arbitrary: b) (auto split: prod.splits option.splits)

lemma evolution_step_increase:
  assumes "evolution_keys_present cfg"
    and "0 < get_default (evolution_config cfg) ''progression_rate'' 0.01"
    and "evolution_prog b + get_default (evolution_config cfg) ''progression_rate'' 0.01
           < get_default (evolution_config cfg) ''stage_goal'' 1"
  shows "\<exists>b'. update_evolution cfg env b = (b', None)
           \<and> evolution_prog b < evolution_prog b'
           \<and> evolution_prog b' \<le> evolution_prog b
                + get_default (evolution_config cfg) ''progression_rate'' 0.01"
proof -
  let ?rate = "get_default (evolution_config cfg) ''progression_rate'' 0.01"
  let ?goal = "get_default (evolution_config cfg) ''stage_goal'' 1"
  from assms(1) obtain scores where sc: "exposure_scores cfg env = Inr scores"
    using exposure_scores_total [of cfg env] by blast
  obtain best where b: "max_by_value scores = Inr best" "1 / 2 \<le> snd best" "snd best \<le> 1"
    by (rule scores_best [OF sc])
  have m: "max (snd best) 0.1 = snd best" using b(2) by (simp add: max_def)
  have lo: "0 < ?rate * snd best"
    using assms(2) b(2) by (intro mult_pos_pos) auto
  have hi: "?rate * snd best \<le> ?rate"
    using assms(2) b(3) by (simp add: mult_left_le)
  have no_reset: "\<not> (?goal \<le> evolution_prog b + ?rate * snd best)"
    using hi assms(3) by linarith
  show ?thesis
    using lo hi no_reset
    by (simp add: update_evolution_result [OF sc b(1)] Let_def m)
qed

lemma run_evolution_bound:
  assumes "evolution_keys_present cfg"
    and "0 < get_default (evolution_config cfg) ''progression_rate'' 0.01"
  shows "evolution_prog b
           + real (length envs) * get_default (evolution_config cfg) ''progression_rate'' 0.01
           < get_default (evolution_config cfg) ''stage_goal'' 1
    \<Longrightarrow> \<exists>b'. run_evolution cfg envs b = (b', None)
           \<and> evolution_prog b \<le> evolution_prog b'
           \<and> evolution_prog b' \<le> evolution_prog b
                + real (length envs) * get_default (evolution_config cfg) ''progression_rate'' 0.01"
proof (induction envs arbitrary: b)
  case Nil
  show ?case by simp
next
  case (Cons env envs)
  let ?rate = "get_default (evolution_config cfg) ''progression_rate'' 0.01"
  let ?goal = "get_default (evolution_config cfg) ''stage_goal'' 1"
  have pre: "evolution_prog b + ?rate + real (length envs) * ?rate < ?goal"
    using Cons.prems by (simp add: algebra_simps)
  have "0 \<le> real (length envs) * ?rate" using assms(2) by simp
  with pre have "evolution_prog b + ?rate < ?goal" by linarith
  from evolution_step_increase [OF assms(1,2) this, of env]
  obtain b1 where s: "update_evolution cfg env b = (b1, None)"
    "evolution_prog b < evolution_prog b1" "evolution_prog b1 \<le> evolution_prog b + ?rate"
    by auto
  have "evolution_prog b1 + real (length envs) * ?rate < ?goal"
    using pre s(3) by linarith
  from Cons.IH [OF this]
  obtain b' where t: "run_evolution cfg envs b1 = (b', None)"
    "evolution_prog b1 \<le> evolution_prog b'"
    "evolution_prog b' \<le> evolution_prog b1 + real (length envs) * ?rate"
    by auto
  have "evolution_prog b \<le> evolution_prog b'" using s(2) t(2) by linarith
  moreover have "evolution_prog b' \<le> evolution_prog b + real (length (env # envs)) * ?rate"
    using s(3) t(3) by (simp add: algebra_simps)
  ultimately show ?case
    using s(1) t(1) by simp
qed

lemma run_evolution_strict:
  assumes "evolution_keys_present cfg"
    and "0 < get_default (evolution_config cfg) ''progression_rate'' 0.01"
    and "evolution_prog b
           + real (length envs) * get_default (evolution_config cfg) ''progression_rate'' 0.01
           < get_default (evolution_config cfg) ''stage_goal'' 1"
    and "k < length envs"
  shows "evolution_prog (fst (run_evolution cfg (take k envs) b))
       < evolution_prog (fst (run_evolution cfg (take (Suc k) envs) b))
       \<and> snd (run_evolution cfg (take (Suc k) envs) b) = None"
proof -
  let ?rate = "get_default (evolution_config cfg) ''progression_rate'' 0.01"
  let ?goal = "get_default (evolution_config cfg) ''stage_goal'' 1"
  have len: "length (take k envs) = k" using assms(4) by simp
  have "real (Suc k) * ?rate \<le> real (length envs) * ?rate"
    using assms(2,4) by (intro mult_right_mono) auto
  then have le: "real k * ?rate + ?rate \<le> real (length envs) * ?rate"
    by (simp add: algebra_simps)
  have "evolution_prog b + real (length (take k envs)) * ?rate < ?goal"
    unfolding len using le assms(2,3) by linarith
  from run_evolution_bound [OF assms(1,2) this]
  obtain b1 where s: "run_evolution cfg (take k envs) b = (b1, None)"
    "evolution_prog b1 \<le> evolution_prog b + real k * ?rate"
    unfolding len by auto
  have "evolution_prog b1 + ?rate < ?goal"
    using s(2) le assms(3) by linarith
  from evolution_step_increase [OF assms(1,2) this, of "envs ! k"]
  obtain b2 where t: "update_evolution cfg (envs ! k) b1 = (b2, None)"
    "evolution_prog b1 < evolution_prog b2"
    by auto
  have tk: "take (Suc k) envs = take k envs @ [envs ! k]"
    using assms(4) by (simp add: take_Suc_conv_app_nth)
  show ?thesis
    unfolding tk run_evolution_append using s(1) t by simp
qed

subsection \<open>Task generation\<close>

lemma need_tasks_concat: "need_tasks tasks d = tasks @ concat (map need_task d)"
  by (induction d arbitrary: tasks) auto

lemma generate_tasks_length:
  "generate_tasks beast env = Inr tasks \<Longrightarrow> length tasks \<le> 3"
  unfolding generate_tasks_def by (auto elim!: bindE simp: Let_def)

lemma generate_tasks_iteration_order:
  assumes "map_of (traits beast) ''explorer'' = Some ex"
    and "map_of (traits beast) ''playful'' = Some pl"
  shows "generate_tasks beast env =
          Inr (take 3 (concat (map need_task (needs beast))
                 @ (if ex > 0.7 then [new_location_task] else [])
                 @ (if pl > 0.7 then [play_session_task] else [])
                 @ (if lux env < 100 then [bright_spot_task] else [])))"
  using assms
  by (simp add: generate_tasks_def need_tasks_concat bind_def getitem_def Let_def)

subsection \<open>The blocks of the needs update\<close>

lemma getitem_Some: "map_of d k = Some v \<Longrightarrow> getitem d k = Inr v"
  by (simp add: getitem_def)

lemma map_of_clamp_values:
  "map_of (clamp_values lo hi d) k = map_option (clamp lo hi) (map_of d k)"
  by (induction d) (auto simp: clamp_values_def)

lemma calculate_drift_rate_total:
  assumes "map_of (thresholds cfg) ''motion_active_g'' = Some active"
    and "map_of (thresholds cfg) ''lux_bright'' = Some bright"
    and "map_of (thresholds cfg) ''temp_cold'' = Some cold"
    and "map_of (thresholds cfg) ''temp_hot'' = Some hot"
  shows "\<exists>rate. calculate_drift_rate cfg need base env b = Inr rate"
proof -
  have "\<not> isl (calculate_drift_rate cfg need base env b)"
    using assms
    by (simp add: calculate_drift_rate_def is_comfortable_temperature_def bind_def getitem_def
        Let_def)
  then show ?thesis by (cases "calculate_drift_rate cfg need base env b") auto
qed

lemma drift_need_effect:
  assumes "calculate_drift_rate cfg need base env b = Inr rate"
    and "map_of (needs b) need = Some old"
    and "map_of (needs_config cfg) ''drift_rate'' = Some g"
  shows "drift_need cfg env actions h need base b =
     Inr (b\<lparr>needs := AList.update need
            (case map_of actions need of
               None \<Rightarrow> old - rate * h * g
             | Some a \<Rightarrow> old - rate * h * g + a) (needs b)\<rparr>)"
  using assms by (simp add: drift_need_def bind_def getitem_def Let_def)

lemma satisfy_rest_effect:
  assumes "map_of (thresholds cfg) ''lux_dark'' = Some dark"
    and "map_of (thresholds cfg) ''motion_active_g'' = Some active"
    and "map_of (needs b) ''rest'' = Some v"
  shows "satisfy_rest cfg env b =
     Inr (if lux env < dark \<and> motion_rms_g env < active / 4
          then b\<lparr>needs := AList.update ''rest'' (min 100 (v + 0.5)) (needs b)\<rparr> else b)"
  using assms by (simp add: satisfy_rest_def bind_def and_also_def getitem_def)

lemma satisfy_hygiene_effect:
  assumes "map_of (thresholds cfg) ''temp_cold'' = Some cold"
    and "map_of (thresholds cfg) ''temp_hot'' = Some hot"
    and "map_of (needs b) ''hygiene'' = Some y"
  shows "satisfy_hygiene cfg env b =
     Inr (if cold + 5 \<le> temp_c env \<and> temp_c env \<le> hot - 5 \<and> 40 < rh env \<and> rh env < 70
          then b\<lparr>needs := AList.update ''hygiene'' (min 100 (y + 0.2)) (needs b)\<rparr> else b)"
  using assms
  by (simp add: satisfy_hygiene_def is_comfortable_temperature_def bind_def and_also_def
      getitem_def)

subsection \<open>Iteration order of the dictionaries\<close>

lemma update_present_keys:
  "map_of d k = Some v \<Longrightarrow> map fst (AList.update k w d) = map fst d"
  by (simp add: update_keys map_of_eq_None_iff [symmetric] del: map_of_eq_None_iff)

lemma clamp_values_keys: "map fst (clamp_values lo hi d) = map fst d"
  by (induction d) (auto simp: clamp_values_def)

lemma drift_need_keys:
  "drift_need cfg env actions h need base b = Inr b' \<Longrightarrow> key_order b' = key_order b"
  unfolding drift_need_def key_order_def
  by (auto elim!: bindE simp: Let_def getitem_def update_present_keys split: option.splits)

lemma satisfy_rest_keys:
  "satisfy_rest cfg env b = Inr b' \<Longrightarrow> key_order b' = key_order b"
  unfolding satisfy_rest_def key_order_def
  by (auto elim!: bindE simp: getitem_def update_present_keys split: if_splits option.splits)

lemma satisfy_hygiene_keys:
  "satisfy_hygiene cfg env b = Inr b' \<Longrightarrow> key_order b' = key_order b"
  unfolding satisfy_hygiene_def key_order_def
  by (auto elim!: bindE simp: getitem_def update_present_keys split: if_splits option.splits)

lemma clamp_needs_keys:
  "clamp_needs now b = Inr b' \<Longrightarrow> key_order b' = key_order b"
  unfolding clamp_needs_def key_order_def by (auto simp: clamp_values_keys)

lemma drift_loop_keys:
  "key_order (fst (foldl (\<lambda>r (need, base_rate).
      step r (drift_need cfg env actions h need base_rate)) r rates)) = key_order (fst r)"
proof (induction rates arbitrary: r)
  case Nil
  show ?case by simp
next
  case (Cons x xs)
  obtain need base where x: "x = (need, base)" by (cases x)
  show ?case
    by (simp add: x Cons.IH step_preserves [where g = key_order, OF drift_need_keys])
qed

lemma update_needs_keys:
  "key_order (fst (update_needs cfg now b env actions)) = key_order b"
proof (cases "base_rates cfg")
  case (Inl e)
  then show ?thesis by (simp add: update_needs_def)
next
  case (Inr rates)
  then show ?thesis
    by (simp add: update_needs_def drift_loop_keys
        step_preserves [where g = key_order, OF satisfy_rest_keys]
        step_preserves [where g = key_order, OF satisfy_hygiene_keys]
        step_preserves [where g = key_order, OF clamp_needs_keys])
qed

lemma bump_trait_keys:
  "bump_trait k d b = Inr b' \<Longrightarrow> key_order b' = key_order b"
  unfolding bump_trait_def key_order_def
  by (auto elim!: bindE simp: getitem_def update_present_keys split: option.splits)

lemma trait_playful_keys:
  "trait_playful cfg env actions b = Inr b' \<Longrightarrow> key_order b' = key_order b"
  unfolding trait_playful_def by (auto elim!: bindE dest: bump_trait_keys split: if_splits)

lemma trait_needy_keys:
  "trait_needy b = Inr b' \<Longrightarrow> key_order b' = key_order b"
  unfolding trait_needy_def by (auto simp: Let_def dest: bump_trait_keys split: if_splits)

lemma trait_rebellious_keys:
  "trait_rebellious b = Inr b' \<Longrightarrow> key_order b' = key_order b"
  unfolding trait_rebellious_def by (auto dest: bump_trait_keys split: if_splits)

lemma trait_social_keys:
  "trait_social actions b = Inr b' \<Longrightarrow> key_order b' = key_order b"
  unfolding trait_social_def by (auto dest: bump_trait_keys split: if_splits)

lemma trait_explorer_keys:
  "trait_explorer env b = Inr b' \<Longrightarrow> key_order b' = key_order b"
  unfolding trait_explorer_def by (auto dest: bump_trait_keys split: if_splits)

lemma clamp_traits_keys:
  "clamp_traits b = Inr b' \<Longrightarrow> key_order b' = key_order b"
  unfolding clamp_traits_def key_order_def by (auto simp: clamp_values_keys)

lemma tick_traits_keys:
  "key_order (fst (tick_traits cfg env b actions)) = key_order b"
  by (simp add: tick_traits_def
      step_preserves [where g = key_order, OF trait_playful_keys]
      step_preserves [where g = key_order, OF trait_needy_keys]
      step_preserves [where g = key_order, OF trait_rebellious_keys]
      step_preserves [where g = key_order, OF trait_social_keys]
      step_preserves [where g = key_order, OF trait_explorer_keys]
      step_preserves [where g = key_order, OF clamp_traits_keys])

lemma update_evolution_keys:
  "key_order (fst (update_evolution cfg env b)) = key_order b"
  using dicts_outside_evolution [OF update_evolution_frame [of cfg env b]]
  by (simp add: key_order_def)

lemma built_in_order_keys:
  "built_in_order b \<Longrightarrow> key_order b = (need_keys, trait_keys)"
proof (induction rule: built_in_order.induct)
  case (init_in_order n t m p s g e u)
  then show ?case by (simp add: key_order_def Beast_init_def clamp_values_keys)
next
  case (mood_in_order b m)
  then show ?case by (simp add: key_order_def)
next
  case (needs_in_order b cfg now env actions)
  then show ?case by (simp add: update_needs_keys)
next
  case (traits_in_order b cfg env actions)
  then show ?case by (simp add: tick_traits_keys)
next
  case (evolution_in_order b cfg env)
  then show ?case by (simp add: update_evolution_keys)
qed

lemma default_beast_in_order: "built_in_order (create_default_beast now)"
  unfolding create_default_beast_def
  by (rule init_in_order) (simp_all add: need_keys_def trait_keys_def)

lemma built_in_order_dicts:
  assumes "built_in_order b"
  obtains h r s y ex pl where
    "needs b = [(''hunger'', h), (''rest'', r), (''social'', s), (''hygiene'', y)]"
    and "map_of (traits b) ''explorer'' = Some ex"
    and "map_of (traits b) ''playful'' = Some pl"
proof -
  from built_in_order_keys [OF assms]
  have n: "map fst (needs b) = [''hunger'', ''rest'', ''social'', ''hygiene'']"
    and t: "map fst (traits b) = [''playful'', ''needy'', ''rebellious'', ''social'', ''explorer'']"
    by (simp_all add: key_order_def need_keys_def trait_keys_def)
  from n obtain h r s y where
    1: "needs b = [(''hunger'', h), (''rest'', r), (''social'', s), (''hygiene'', y)]"
    by (auto simp: map_eq_Cons_conv)
  from t obtain v1 v2 v3 v4 v5 where
    "traits b = [(''playful'', v1), (''needy'', v2), (''rebellious'', v3), (''social'', v4),
                 (''explorer'', v5)]"
    by (auto simp: map_eq_Cons_conv)
  then have "map_of (traits b) ''explorer'' = Some v5" "map_of (traits b) ''playful'' = Some v1"
    by simp_all
  with 1 show ?thesis using that by blast
qed

subsection \<open>Rule priority of the mood classifier\<close>

text \<open>
  Claim C5. For every snapshot and every beast, when the snapshot's temperature is at or
  above the configured hot threshold, \<^verbatim>\<open>infer_mood\<close> returns \<^verbatim>\<open>'hot'\<close>, whatever
  the other fields of the snapshot and of the beast are, and whatever the rest of the
  configuration is: the first rule wins.
\<close>

theorem infer_mood_hot_first:
  assumes "map_of (thresholds cfg) ''temp_hot'' = Some hot" and "temp_c env \<ge> hot"
  shows "infer_mood cfg env beast = Inr ''hot''"
  using assms by (simp add: infer_mood_def bind_def getitem_def)

theorem infer_mood_hot_first_witness:
  "infer_mood example_config (calm_env\<lparr>temp_c := 35, lux := 8000\<rparr>) (create_default_beast 0)
     = Inr ''hot''"
  using infer_mood_hot_first [of example_config 30 "calm_env\<lparr>temp_c := 35, lux := 8000\<rparr>"
      "create_default_beast 0"]
  by (simp add: example_config_def calm_env_def)

subsection \<open>Drift of the rest need\<close>

text \<open>
  Claim C8. In \<^verbatim>\<open>update_needs\<close> the drift rate of the rest need is the configured base
  rate \<^verbatim>\<open>rest_base\<close> times 1.2 when lux exceeds the bright threshold and times 1.3 when
  motion exceeds the active threshold; the two factors compose, so the rate is the base rate
  times 1.56 when both conditions hold and the base rate itself when neither does. Under a
  configuration and a beast that hold the keys \<^verbatim>\<open>update_needs\<close> reads, the update
  completes and the rest need it leaves is the old one less this rate times the elapsed hours
  times the global drift multiplier, plus the caregiver's action, plus 0.5 in a dark and
  quiet environment, clamped to [0,100].
\<close>

theorem rest_drift_multipliers:
  assumes "map_of (needs_config cfg) ''hunger_base'' = Some hb"
    and "map_of (needs_config cfg) ''rest_base'' = Some rb"
    and "map_of (needs_config cfg) ''social_base'' = Some sb"
    and "map_of (needs_config cfg) ''hygiene_base'' = Some yb"
    and "map_of (needs_config cfg) ''drift_rate'' = Some g"
    and "map_of (thresholds cfg) ''lux_bright'' = Some bright"
    and "map_of (thresholds cfg) ''motion_active_g'' = Some active"
    and "map_of (thresholds cfg) ''lux_dark'' = Some dark"
    and "map_of (thresholds cfg) ''temp_cold'' = Some cold"
    and "map_of (thresholds cfg) ''temp_hot'' = Some hot"
    and "map_of (needs beast) ''hunger'' = Some h"
    and "map_of (needs beast) ''rest'' = Some r"
    and "map_of (needs beast) ''social'' = Some s"
    and "map_of (needs beast) ''hygiene'' = Some y"
  shows "base_rates cfg =
           Inr [(''hunger'', hb), (''rest'', rb), (''social'', sb), (''hygiene'', yb)]
    \<and> calculate_drift_rate cfg ''rest'' rb env beast =
           Inr (rb * (if lux env > bright then 1.2 else 1)
                   * (if motion_rms_g env > active then 1.3 else 1))
    \<and> (lux env > bright \<and> motion_rms_g env > active \<longrightarrow>
         calculate_drift_rate cfg ''rest'' rb env beast = Inr (rb * 1.56))
    \<and> (lux env \<le> bright \<and> motion_rms_g env \<le> active \<longrightarrow>
         calculate_drift_rate cfg ''rest'' rb env beast = Inr rb)
    \<and> snd (update_needs cfg now beast env actions) = None
    \<and> map_of (needs (fst (update_needs cfg now beast env actions))) ''rest'' =
        Some (clamp 0 100
          (let drifted = r - rb * (if lux env > bright then 1.2 else 1)
                              * (if motion_rms_g env > active then 1.3 else 1)
                              * ((now - last_updated beast) / 3600) * g;
               acted = (case map_of actions ''rest'' of
                          None \<Rightarrow> drifted | Some a \<Rightarrow> drifted + a)
           in if lux env < dark \<and> motion_rms_g env < active / 4
              then min 100 (acted + 0.5) else acted))"
proof -
  let ?hours = "(now - last_updated beast) / 3600"
  let ?rate = "rb * (if lux env > bright then 1.2 else 1)
                  * (if motion_rms_g env > active then 1.3 else 1)"
  let ?acted = "case map_of actions ''rest'' of
                  None \<Rightarrow> r - ?rate * ?hours * g | Some a \<Rightarrow> r - ?rate * ?hours * g + a"
  have br: "base_rates cfg =
      Inr [(''hunger'', hb), (''rest'', rb), (''social'', sb), (''hygiene'', yb)]"
    using assms(1-4) by (simp add: base_rates_def bind_def getitem_def)
  have cr: "calculate_drift_rate cfg ''rest'' rb env b = Inr ?rate" for b
    using assms(6,7) by (simp add: calculate_drift_rate_def bind_def getitem_def Let_def)
  \<comment> \<open>the four iterations of the drift loop\<close>
  obtain rate1 where r1: "calculate_drift_rate cfg ''hunger'' hb env beast = Inr rate1"
    using calculate_drift_rate_total [OF assms(7,6,9,10)] by blast
  define b1 where "b1 = beast\<lparr>needs := AList.update ''hunger''
      (case map_of actions ''hunger'' of
         None \<Rightarrow> h - rate1 * ?hours * g | Some a \<Rightarrow> h - rate1 * ?hours * g + a)
      (needs beast)\<rparr>"
  have s1: "drift_need cfg env actions ?hours ''hunger'' hb beast = Inr b1"
    unfolding b1_def by (rule drift_need_effect [OF r1 assms(11,5)])
  have n1: "map_of (needs b1) ''rest'' = Some r" "map_of (needs b1) ''social'' = Some s"
    "map_of (needs b1) ''hygiene'' = Some y"
    using assms(12-14) by (simp_all add: b1_def update_conv')
  define b2 where "b2 = b1\<lparr>needs := AList.update ''rest'' ?acted (needs b1)\<rparr>"
  have s2: "drift_need cfg env actions ?hours ''rest'' rb b1 = Inr b2"
    unfolding b2_def by (rule drift_need_effect [OF cr n1(1) assms(5)])
  have n2: "map_of (needs b2) ''rest'' = Some ?acted" "map_of (needs b2) ''social'' = Some s"
    "map_of (needs b2) ''hygiene'' = Some y"
    using n1 by (simp_all add: b2_def update_conv')
  obtain rate3 where r3: "calculate_drift_rate cfg ''social'' sb env b2 = Inr rate3"
    using calculate_drift_rate_total [OF assms(7,6,9,10)] by blast
  define b3 where "b3 = b2\<lparr>needs := AList.update ''social''
      (case map_of actions ''social'' of
         None \<Rightarrow> s - rate3 * ?hours * g | Some a \<Rightarrow> s - rate3 * ?hours * g + a)
      (needs b2)\<rparr>"
  have s3: "drift_need cfg env actions ?hours ''social'' sb b2 = Inr b3"
    unfolding b3_def by (rule drift_need_effect [OF r3 n2(2) assms(5)])
  have n3: "map_of (needs b3) ''rest'' = Some ?acted" "map_of (needs b3) ''hygiene'' = Some y"
    using n2 by (simp_all add: b3_def update_conv')
  obtain rate4 where r4: "calculate_drift_rate cfg ''hygiene'' yb env b3 = Inr rate4"
    using calculate_drift_rate_total [OF assms(7,6,9,10)] by blast
  define b4 where "b4 = b3\<lparr>needs := AList.update ''hygiene''
      (case map_of actions ''hygiene'' of
         None \<Rightarrow> y - rate4 * ?hours * g | Some a \<Rightarrow> y - rate4 * ?hours * g + a)
      (needs b3)\<rparr>"
  have s4: "drift_need cfg env actions ?hours ''hygiene'' yb b3 = Inr b4"
    unfolding b4_def by (rule drift_need_effect [OF r4 n3(2) assms(5)])
  have n4: "map_of (needs b4) ''rest'' = Some ?acted"
    "\<exists>y'. map_of (needs b4) ''hygiene'' = Some y'"
    using n3 by (simp_all add: b4_def update_conv')
  \<comment> \<open>the environmental satisfaction\<close>
  define b5 where "b5 = (if lux env < dark \<and> motion_rms_g env < active / 4
          then b4\<lparr>needs := AList.update ''rest'' (min 100 (?acted + 0.5)) (needs b4)\<rparr> else b4)"
  have s5: "satisfy_rest cfg env b4 = Inr b5"
    unfolding b5_def by (rule satisfy_rest_effect [OF assms(8,7) n4(1)])
  have n5: "map_of (needs b5) ''rest'' =
      Some (if lux env < dark \<and> motion_rms_g env < active / 4
            then min 100 (?acted + 0.5) else ?acted)"
    "\<exists>y'. map_of (needs b5) ''hygiene'' = Some y'"
    using n4 by (simp_all add: b5_def update_conv')
  from n5(2) obtain y' where y': "map_of (needs b5) ''hygiene'' = Some y'" by blast
  define b6 where "b6 = (if cold + 5 \<le> temp_c env \<and> temp_c env \<le> hot - 5
                              \<and> 40 < rh env \<and> rh env < 70
          then b5\<lparr>needs := AList.update ''hygiene'' (min 100 (y' + 0.2)) (needs b5)\<rparr> else b5)"
  have s6: "satisfy_hygiene cfg env b5 = Inr b6"
    unfolding b6_def by (rule satisfy_hygiene_effect [OF assms(9,10) y'])
  have n6: "map_of (needs b6) ''rest'' =
      Some (if lux env < dark \<and> motion_rms_g env < active / 4
            then min 100 (?acted + 0.5) else ?acted)"
    using n5(1) by (simp add: b6_def update_conv')
  have t: "step (beast, None) (drift_need cfg env actions ?hours ''hunger'' hb) = (b1, None)"
    "step (b1, None) (drift_need cfg env actions ?hours ''rest'' rb) = (b2, None)"
    "step (b2, None) (drift_need cfg env actions ?hours ''social'' sb) = (b3, None)"
    "step (b3, None) (drift_need cfg env actions ?hours ''hygiene'' yb) = (b4, None)"
    "step (b4, None) (satisfy_rest cfg env) = (b5, None)"
    "step (b5, None) (satisfy_hygiene cfg env) = (b6, None)"
    "step (b6, None) (clamp_needs now) =
       (b6\<lparr>needs := clamp_values 0 100 (needs b6), last_updated := now\<rparr>, None)"
    by (simp_all add: step_def s1 s2 s3 s4 s5 s6 clamp_needs_def)
  have u: "update_needs cfg now beast env actions =
      (b6\<lparr>needs := clamp_values 0 100 (needs b6), last_updated := now\<rparr>, None)"
    by (simp add: update_needs_def Let_def br t)
  have fin: "map_of (needs (fst (update_needs cfg now beast env actions))) ''rest'' =
      Some (clamp 0 100 (if lux env < dark \<and> motion_rms_g env < active / 4
            then min 100 (?acted + 0.5) else ?acted))"
    by (simp add: u map_of_clamp_values n6)
  have both: "lux env > bright \<and> motion_rms_g env > active \<longrightarrow>
         calculate_drift_rate cfg ''rest'' rb env beast = Inr (rb * 1.56)"
    by (simp add: cr)
  have neither: "lux env \<le> bright \<and> motion_rms_g env \<le> active \<longrightarrow>
         calculate_drift_rate cfg ''rest'' rb env beast = Inr rb"
    by (simp add: cr)
  have sn: "snd (update_needs cfg now beast env actions) = None"
    by (simp add: u)
  show ?thesis
    unfolding Let_def using br cr [of beast] both neither sn fin by blast
qed

theorem rest_drift_multipliers_witness:
  "calculate_drift_rate example_config ''rest'' 1.5 sun_env (create_default_beast 0) = Inr 2.34
   \<and> snd (update_needs example_config 3600 (create_default_beast 0) sun_env []) = None
   \<and> map_of (needs (fst (update_needs example_config 3600 (create_default_beast 0) sun_env [])))
        ''rest'' = Some 57.66"
proof -
  have nc: "map_of (needs_config example_config) ''hunger_base'' = Some 2"
    "map_of (needs_config example_config) ''rest_base'' = Some 1.5"
    "map_of (needs_config example_config) ''social_base'' = Some 1"
    "map_of (needs_config example_config) ''hygiene_base'' = Some 0.5"
    "map_of (needs_config example_config) ''drift_rate'' = Some 1"
    by (simp_all add: example_config_def)
  have th: "map_of (thresholds example_config) ''lux_bright'' = Some 5000"
    "map_of (thresholds example_config) ''motion_active_g'' = Some 0.2"
    "map_of (thresholds example_config) ''lux_dark'' = Some 100"
    "map_of (thresholds example_config) ''temp_cold'' = Some 10"
    "map_of (thresholds example_config) ''temp_hot'' = Some 30"
    by (simp_all add: example_config_def)
  have nd: "map_of (needs (create_default_beast 0)) ''hunger'' = Some 75"
    "map_of (needs (create_default_beast 0)) ''rest'' = Some 60"
    "map_of (needs (create_default_beast 0)) ''social'' = Some 50"
    "map_of (needs (create_default_beast 0)) ''hygiene'' = Some 80"
    by (simp_all add: create_default_beast_def Beast_init_def clamp_values_def clamp_def)
  have lu: "last_updated (create_default_beast 0) = 0"
    by (simp add: create_default_beast_def Beast_init_def)
  show ?thesis
    using rest_drift_multipliers [OF nc th nd, where env = sun_env and now = 3600
        and actions = "[]"]
    by (simp add: sun_env_def calm_env_def lu clamp_def Let_def)
qed

subsection \<open>Novelty without a recorded history\<close>

text \<open>
  Claim C9. For every snapshot and every beast built by the constructor or by
  \<^verbatim>\<open>create_default_beast\<close> and then passed through the engine (nothing ever assigns
  \<^verbatim>\<open>_last_fingerprint\<close> or \<^verbatim>\<open>_last_lux\<close>), novelty is detected exactly when the
  snapshot's fingerprint is not empty or it counts more than two shake events; the branch on
  a lux change of more than 50% is never taken. The slowdown of the social drift by 0.8 and
  the increment of the explorer trait reduce to the same condition, and so does the guard of
  the \<^verbatim>\<open>'curious'\<close> rule, which is \<open>detect_novelty\<close> itself.
\<close>

theorem novelty_of_constructed:
  assumes "constructed beast"
  shows "(detect_novelty env beast \<longleftrightarrow> ssid_fingerprint env \<noteq> [] \<or> shake_events env > 2)
    \<and> calculate_drift_rate cfg ''social'' base_rate env beast =
        Inr (if ssid_fingerprint env \<noteq> [] \<or> shake_events env > 2
             then base_rate * 0.8 else base_rate)
    \<and> trait_explorer env beast =
        (if ssid_fingerprint env \<noteq> [] \<or> shake_events env > 2
         then bump_trait ''explorer'' learning_rate beast else Inr beast)"
proof -
  have n: "detect_novelty env beast \<longleftrightarrow> ssid_fingerprint env \<noteq> [] \<or> shake_events env > 2"
    using constructed_no_history [OF assms] by (auto simp: detect_novelty_def)
  show ?thesis
    unfolding calculate_drift_rate_def trait_explorer_def n by simp
qed

theorem novelty_of_constructed_witness:
  "detect_novelty calm_env (fst (update_evolution example_config sun_env (create_default_beast 0)))
   \<and> \<not> detect_novelty (calm_env\<lparr>ssid_fingerprint := [], lux := 100000\<rparr>)
         (fst (update_evolution example_config sun_env (create_default_beast 0)))"
proof -
  have c: "constructed (fst (update_evolution example_config sun_env (create_default_beast 0)))"
    by (intro constructed.intros)
  show ?thesis
    using novelty_of_constructed [OF c, where env = calm_env]
      novelty_of_constructed [OF c,
        where env = "calm_env\<lparr>ssid_fingerprint := [], lux := 100000\<rparr>"]
    by (simp add: calm_env_def)
qed

subsection \<open>The energy field is never assigned\<close>

text \<open>
  Claim C10. None of the engine's operations assigns the beast's energy, and none assigns
  its mood (the caller does): \<^verbatim>\<open>update_needs\<close>, \<^verbatim>\<open>tick_traits\<close> and
  \<^verbatim>\<open>update_evolution\<close> leave both as they were, whether they return or raise;
  \<^verbatim>\<open>infer_mood\<close> and \<^verbatim>\<open>generate_tasks\<close> return a value and assign nothing. Hence
  the energy after a full tick, after any run of ticks and after any run of the service loop
  is the energy the beast was constructed or restored with.
\<close>

theorem energy_frame:
  "energy (fst (update_needs cfg now beast env actions)) = energy beast
   \<and> energy (fst (tick_traits cfg env beast actions)) = energy beast
   \<and> energy (fst (update_evolution cfg env beast)) = energy beast
   \<and> mood (fst (update_needs cfg now beast env actions)) = mood beast
   \<and> mood (fst (tick_traits cfg env beast actions)) = mood beast
   \<and> mood (fst (update_evolution cfg env beast)) = mood beast
   \<and> energy (fst (tick cfg now env beast)) = energy beast
   \<and> energy (fst (service_tick cfg now env beast)) = energy beast
   \<and> energy (fst (run_ticks cfg ts beast)) = energy beast
   \<and> energy (run_service cfg ts beast) = energy beast"
  by (simp add: update_needs_keeps tick_traits_keeps update_evolution_keeps tick_energy
      service_tick_energy run_ticks_energy run_service_energy)

theorem energy_frame_witness:
  "energy (fst (tick example_config 10 sun_env (create_default_beast 0))) = 100
   \<and> energy (fst (run_ticks example_config [(10, sun_env), (20, calm_env)]
        (create_default_beast 0))) = 100
   \<and> energy (run_service example_config [(10, sun_env), (20, calm_env)]
        (create_default_beast 0)) = 100"
  using energy_frame [of example_config 10 "create_default_beast 0" sun_env "[]"
      "[(10, sun_env), (20, calm_env)]"]
  by (simp add: energy_default)

subsection \<open>Ranges of the state\<close>

text \<open>
  Claim C1. After every update of any sequence of \<^verbatim>\<open>update_needs\<close>,
  \<^verbatim>\<open>tick_traits\<close> and \<^verbatim>\<open>update_evolution\<close>, each need is in [0,100], each trait in
  [0,1], the stage in [1,4] and the progress in [0,1], also when the stage is already 4.

  The needs, the traits and the stage stay in range (\<open>run_updates_ranges\<close>), and so does
  the progress while the stage is below 4 (\<open>update_evolution_prog_below_last_stage\<close>). At
  stage 4 the progress is added to and neither reset nor clamped: the beast below is in
  range before the update, and its progress is 1.01 after it.
\<close>

theorem evolution_prog_leaves_range:
  "state_invariant stage4_beast
   \<and> update_evolution example_config sun_env stage4_beast =
       (stage4_beast\<lparr>evolution_prog := 1.01\<rparr>, None)
   \<and> \<not> state_invariant (fst (update_evolution example_config sun_env stage4_beast))"
proof -
  have u: "update_evolution example_config sun_env stage4_beast =
       (stage4_beast\<lparr>evolution_prog := 1.01\<rparr>, None)"
    by (simp add: example_config_def sun_env_def calm_env_def stage4_beast_def Beast_init_def
        update_evolution_def exposure_scores_def bind_def and_also_def getitem_def step_def
        switch_path_def progress_def get_default_def values_of_def Let_def clamp_values_def
        clamp_def)
  have i: "state_invariant stage4_beast"
    unfolding stage4_beast_def by (rule Beast_init_invariant)
  show ?thesis
    unfolding u using i by (simp add: state_invariant_def prog_in_range_def)
qed

subsection \<open>Configuration keys without a built-in default\<close>

text \<open>
  Claim C3. When a named key is absent from the configuration, each operation still
  completes the tick with a built-in default for it.

  The engine reads \<^verbatim>\<open>pressure_stable\<close>, \<^verbatim>\<open>progression_rate\<close> and
  \<^verbatim>\<open>stage_goal\<close> with a default (\<open>builtin_defaults_used\<close>), and every other key by
  subscript: with the empty configuration, and with a configuration that lacks one of
  \<^verbatim>\<open>temp_hot\<close>, \<^verbatim>\<open>lux_dark\<close>, \<^verbatim>\<open>motion_active_g\<close>, \<^verbatim>\<open>hunger_base\<close>, the
  operations raise \<^verbatim>\<open>KeyError\<close>.
\<close>

theorem missing_key_raises:
  "infer_mood empty_config env beast = Inl (KeyError ''temp_hot'')
   \<and> update_needs empty_config now beast env actions = (beast, Some (KeyError ''hunger_base''))
   \<and> update_evolution empty_config env beast =
       (beast, Some (KeyError (if lux env > 1000 \<and> temp_c env > 20
                               then ''motion_active_g'' else ''lux_dark'')))
   \<and> infer_mood
        (example_config\<lparr>thresholds := AList.delete ''temp_hot'' (thresholds example_config)\<rparr>)
        calm_env (create_default_beast 0) = Inl (KeyError ''temp_hot'')
   \<and> infer_mood
        (example_config\<lparr>thresholds := AList.delete ''lux_dark'' (thresholds example_config)\<rparr>)
        calm_env (create_default_beast 0) = Inl (KeyError ''lux_dark'')
   \<and> infer_mood
        (example_config\<lparr>thresholds :=
           AList.delete ''motion_active_g'' (thresholds example_config)\<rparr>)
        calm_env (create_default_beast 0) = Inl (KeyError ''motion_active_g'')
   \<and> snd (update_needs
        (example_config\<lparr>needs_config :=
           AList.delete ''hunger_base'' (needs_config example_config)\<rparr>)
        10 (create_default_beast 0) calm_env []) = Some (KeyError ''hunger_base'')
   \<and> snd (update_evolution
        (example_config\<lparr>thresholds := AList.delete ''temp_hot'' (thresholds example_config)\<rparr>)
        calm_env (create_default_beast 0)) = Some (KeyError ''temp_hot'')"
proof -
  have 1: "infer_mood empty_config env beast = Inl (KeyError ''temp_hot'')"
    by (simp add: infer_mood_def empty_config_def bind_def getitem_def)
  have 2: "update_needs empty_config now beast env actions =
      (beast, Some (KeyError ''hunger_base''))"
    by (simp add: update_needs_def base_rates_def empty_config_def bind_def getitem_def)
  have 3: "update_evolution empty_config env beast =
       (beast, Some (KeyError (if lux env > 1000 \<and> temp_c env > 20
                               then ''motion_active_g'' else ''lux_dark'')))"
    by (simp add: update_evolution_def exposure_scores_def empty_config_def bind_def
        and_also_def getitem_def)
  have 4: "infer_mood
        (example_config\<lparr>thresholds := AList.delete ''temp_hot'' (thresholds example_config)\<rparr>)
        calm_env (create_default_beast 0) = Inl (KeyError ''temp_hot'')"
    by code_simp
  have 5: "infer_mood
        (example_config\<lparr>thresholds := AList.delete ''lux_dark'' (thresholds example_config)\<rparr>)
        calm_env (create_default_beast 0) = Inl (KeyError ''lux_dark'')"
    by code_simp
  have 6: "infer_mood
        (example_config\<lparr>thresholds :=
           AList.delete ''motion_active_g'' (thresholds example_config)\<rparr>)
        calm_env (create_default_beast 0) = Inl (KeyError ''motion_active_g'')"
    by code_simp
  have 7: "snd (update_needs
        (example_config\<lparr>needs_config :=
           AList.delete ''hunger_base'' (needs_config example_config)\<rparr>)
        10 (create_default_beast 0) calm_env []) = Some (KeyError ''hunger_base'')"
    by code_simp
  have 8: "snd (update_evolution
        (example_config\<lparr>thresholds := AList.delete ''temp_hot'' (thresholds example_config)\<rparr>)
        calm_env (create_default_beast 0)) = Some (KeyError ''temp_hot'')"
    by code_simp
  show ?thesis
    unfolding 1 2 3 4 5 6 7 8 by simp
qed

subsection \<open>Path switch with hysteresis\<close>

text \<open>
  Claim C2. \<^verbatim>\<open>update_evolution\<close> switches the evolution path to the best-scoring path
  of this tick exactly when that path's score exceeds the score of the current path by more
  than 0.2; with a margin of 0.2 or less the path is kept. The best-scoring path is an item
  of the scores whose score no other item exceeds. On the scores of the specification's
  example (current path \<^verbatim>\<open>sun\<close> at 0.9, \<^verbatim>\<open>ember\<close> at 1.0) the switch block keeps
  \<^verbatim>\<open>sun\<close>.
\<close>

theorem path_switch_hysteresis:
  assumes "exposure_scores cfg env = Inr scores"
  shows "\<exists>best_path best_score.
      max_by_value scores = Inr (best_path, best_score)
    \<and> (best_path, best_score) \<in> set scores
    \<and> list_all (\<lambda>item. snd item \<le> best_score) scores
    \<and> (evolution_path (fst (update_evolution cfg env beast)) \<noteq> evolution_path beast
         \<longleftrightarrow> best_score > get_default scores (evolution_path beast) 0 + 0.2)
    \<and> evolution_path (fst (update_evolution cfg env beast)) =
        (if best_score > get_default scores (evolution_path beast) 0 + 0.2
         then best_path else evolution_path beast)
    \<and> switch_path
        [(''sun'', 0.9), (''shadow'', 0), (''ember'', 1), (''frost'', 0), (''social'', 0),
         (''lone'', 0.5)] (beast\<lparr>evolution_path := ''sun''\<rparr>)
        = Inr (beast\<lparr>evolution_path := ''sun''\<rparr>)"
proof -
  obtain best where b: "max_by_value scores = Inr best" "best \<in> set scores"
    "list_all (\<lambda>item. snd item \<le> snd best) scores"
    by (rule scores_best [OF assms])
  have p: "evolution_path (fst (update_evolution cfg env beast)) =
        (if snd best > get_default scores (evolution_path beast) 0 + 0.2
         then fst best else evolution_path beast)"
    by (simp add: update_evolution_result [OF assms b(1)] Let_def)
  have "map_of scores (fst best) = Some (snd best)"
    using b(2) scores_distinct(2) [OF assms] by (simp add: map_of_is_SomeI)
  then have same: "get_default scores (fst best) 0 = snd best"
    by (simp add: get_default_def)
  have q: "evolution_path (fst (update_evolution cfg env beast)) \<noteq> evolution_path beast
         \<longleftrightarrow> snd best > get_default scores (evolution_path beast) 0 + 0.2"
    unfolding p using same by auto
  have e: "switch_path
        [(''sun'', 0.9), (''shadow'', 0), (''ember'', 1), (''frost'', 0), (''social'', 0),
         (''lone'', 0.5)] (beast\<lparr>evolution_path := ''sun''\<rparr>)
        = Inr (beast\<lparr>evolution_path := ''sun''\<rparr>)"
    by (simp add: switch_path_def get_default_def bind_def)
  show ?thesis
    using b p q e by (intro exI [of _ "fst best"] exI [of _ "snd best"]) simp
qed

theorem path_switch_hysteresis_witness:
  "evolution_path (fst (update_evolution example_config sun_env (create_default_beast 0)))
     = ''sun''
   \<and> evolution_path (fst (update_evolution example_config calm_env (create_default_beast 0)))
     = ''lone''"
  using path_switch_hysteresis [OF example_scores(1), of "create_default_beast 0"]
    path_switch_hysteresis [OF example_scores(2), of "create_default_beast 0"]
  by (auto simp: get_default_def create_default_beast_def Beast_init_def)

subsection \<open>An unrecognised evolution path\<close>

text \<open>
  Claim C4, as stated: for a beast whose path is none of the six recognised ones,
  \<^verbatim>\<open>update_evolution\<close> does not raise and leaves the path as it is. It is false:
  the unknown path scores 0 by \<^verbatim>\<open>exposure_scores.get(path, 0.0)\<close>, and the best score
  of a tick is at least 0.5, so the path is replaced. Here \<^verbatim>\<open>'moon'\<close> becomes
  \<^verbatim>\<open>'lone'\<close>.
\<close>

theorem unknown_path_kept_counterexample:
  "''moon'' \<notin> set evolution_paths
   \<and> update_evolution example_config calm_env
        ((create_default_beast 0)\<lparr>evolution_path := ''moon''\<rparr>)
      = ((create_default_beast 0)\<lparr>evolution_path := ''lone'', evolution_prog := 0.005\<rparr>, None)"
  by code_simp

text \<open>
  Claim C4, amended. For every beast whose path is none of the six recognised ones, and
  every configuration that holds the four thresholds \<^verbatim>\<open>update_evolution\<close> reads,
  \<^verbatim>\<open>update_evolution\<close> does not raise and replaces the path by the best-scoring path of
  this tick, which is one of the six recognised paths.
\<close>

theorem unknown_path_replaced:
  assumes "evolution_path beast \<notin> set evolution_paths" and "evolution_keys_present cfg"
  shows "snd (update_evolution cfg env beast) = None
    \<and> evolution_path (fst (update_evolution cfg env beast)) \<in> set evolution_paths
    \<and> evolution_path (fst (update_evolution cfg env beast)) \<noteq> evolution_path beast
    \<and> (\<exists>scores best. exposure_scores cfg env = Inr scores
          \<and> max_by_value scores = Inr best
          \<and> evolution_path (fst (update_evolution cfg env beast)) = fst best)"
proof -
  from assms(2) obtain scores where sc: "exposure_scores cfg env = Inr scores"
    using exposure_scores_total [of cfg env] by blast
  obtain best where b: "max_by_value scores = Inr best" "1 / 2 \<le> snd best"
    "fst best \<in> set evolution_paths"
    by (rule scores_best [OF sc])
  have "fst ` set scores = set evolution_paths"
    using scores_distinct(1) [OF sc] by (metis set_map)
  then have "map_of scores (evolution_path beast) = None"
    using assms(1) by (simp add: map_of_eq_None_iff)
  then have cur: "get_default scores (evolution_path beast) 0 = 0"
    by (simp add: get_default_def)
  have p: "evolution_path (fst (update_evolution cfg env beast)) = fst best"
    and n: "snd (update_evolution cfg env beast) = None"
    using b(2) cur by (simp_all add: update_evolution_result [OF sc b(1)] Let_def)
  have "\<exists>scores best. exposure_scores cfg env = Inr scores
          \<and> max_by_value scores = Inr best
          \<and> evolution_path (fst (update_evolution cfg env beast)) = fst best"
    using sc b(1) p by blast
  moreover have "evolution_path (fst (update_evolution cfg env beast)) \<noteq> evolution_path beast"
    using p b(3) assms(1) by auto
  ultimately show ?thesis
    using n p b(3) by simp
qed

theorem unknown_path_replaced_witness:
  "evolution_path (fst (update_evolution example_config sun_env
      ((create_default_beast 0)\<lparr>evolution_path := ''moon''\<rparr>))) \<in> set evolution_paths
   \<and> snd (update_evolution example_config sun_env
      ((create_default_beast 0)\<lparr>evolution_path := ''moon''\<rparr>)) = None"
  using unknown_path_replaced [of "(create_default_beast 0)\<lparr>evolution_path := ''moon''\<rparr>"
      example_config sun_env, OF _ example_keys_present]
  by (simp add: evolution_paths_def)

subsection \<open>Accumulation of the evolution progress\<close>

text \<open>
  Claim C6, as stated: each call of \<^verbatim>\<open>update_evolution\<close> adds the progression rate
  times \<open>max best 0.1\<close> to the progress, hence over ten consecutive ticks of sun-favouring
  snapshots from progress 0 the progress never decreases. The second half is false when the
  configured rate lets the progress reach the stage goal within the ten ticks: with a
  progression rate of 0.2 the progress is 0.8 after the fourth tick and, the stage advancing,
  0 after the fifth.
\<close>

theorem ten_ticks_monotone_counterexample:
  "evolution_prog (create_default_beast 0) = 0
   \<and> evolution_prog
        (fst (run_evolution fast_config (replicate 4 sun_env) (create_default_beast 0))) = 0.8
   \<and> evolution_prog
        (fst (run_evolution fast_config (replicate 5 sun_env) (create_default_beast 0))) = 0
   \<and> evolution_stage
        (fst (run_evolution fast_config (replicate 5 sun_env) (create_default_beast 0))) = 2"
  by code_simp

text \<open>
  Claim C6, amended. Under a configuration that holds the thresholds
  \<^verbatim>\<open>update_evolution\<close> reads, each call adds to the progress exactly the progression
  rate times \<open>max best 0.1\<close>, where \<open>best\<close> is the largest of the six exposure scores
  of the tick; the sum is the new progress unless the stage advances, which resets it to 0.
  Hence, when the progression rate is positive and eleven times the rate does not exceed the
  stage goal (ten ticks then stay a whole increment below the goal; the built-in defaults
  0.01 and 1.0 are such), over ten consecutive ticks from progress 0 the progress grows
  strictly at every tick, whatever the snapshots are, so also on the sun-favouring ones.
\<close>

theorem evolution_progress_accumulates:
  assumes "evolution_keys_present cfg"
  shows "(\<exists>scores best.
            exposure_scores cfg env = Inr scores
          \<and> length scores = 6
          \<and> max_list (values_of scores) = Inr best
          \<and> best \<in> set (values_of scores)
          \<and> list_all (\<lambda>v. v \<le> best) (values_of scores)
          \<and> snd (update_evolution cfg env beast) = None
          \<and> evolution_prog (fst (update_evolution cfg env beast)) =
              (if evolution_prog beast
                    + get_default (evolution_config cfg) ''progression_rate'' 0.01 * max best 0.1
                    \<ge> get_default (evolution_config cfg) ''stage_goal'' 1
                  \<and> evolution_stage beast < 4
               then 0
               else evolution_prog beast
                    + get_default (evolution_config cfg) ''progression_rate'' 0.01 * max best 0.1))
    \<and> (0 < get_default (evolution_config cfg) ''progression_rate'' 0.01
         \<and> 11 * get_default (evolution_config cfg) ''progression_rate'' 0.01
             \<le> get_default (evolution_config cfg) ''stage_goal'' 1
         \<and> evolution_prog beast = 0 \<and> length envs = 10
       \<longrightarrow> snd (run_evolution cfg envs beast) = None
         \<and> evolution_prog beast < evolution_prog (fst (run_evolution cfg envs beast))
         \<and> (\<forall>k<10. evolution_prog (fst (run_evolution cfg (take k envs) beast))
                    < evolution_prog (fst (run_evolution cfg (take (Suc k) envs) beast))))"
proof (intro conjI impI)
  from assms obtain scores where sc: "exposure_scores cfg env = Inr scores"
    using exposure_scores_total [of cfg env] by blast
  obtain best where b: "max_by_value scores = Inr best" "best \<in> set scores"
    "list_all (\<lambda>item. snd item \<le> snd best) scores"
    by (rule scores_best [OF sc])
  have 1: "length scores = 6"
    using scores_distinct(1) [OF sc, THEN arg_cong, of length] by (simp add: evolution_paths_def)
  have 2: "max_list (values_of scores) = Inr (snd best)"
    by (rule max_list_max_by_value [OF b(1)])
  have 3: "snd best \<in> set (values_of scores)"
    using b(2) by (auto simp: values_of_def)
  have 4: "list_all (\<lambda>v. v \<le> snd best) (values_of scores)"
    using b(3) by (simp add: values_of_def list_all_iff)
  have 5: "snd (update_evolution cfg env beast) = None"
    by (simp add: update_evolution_result [OF sc b(1)] Let_def)
  have 6: "evolution_prog (fst (update_evolution cfg env beast)) =
              (if evolution_prog beast
                    + get_default (evolution_config cfg) ''progression_rate'' 0.01
                      * max (snd best) 0.1
                    \<ge> get_default (evolution_config cfg) ''stage_goal'' 1
                  \<and> evolution_stage beast < 4
               then 0
               else evolution_prog beast
                    + get_default (evolution_config cfg) ''progression_rate'' 0.01
                      * max (snd best) 0.1)"
    by (auto simp: update_evolution_result [OF sc b(1)] Let_def)
  show "\<exists>scores best.
            exposure_scores cfg env = Inr scores
          \<and> length scores = 6
          \<and> max_list (values_of scores) = Inr best
          \<and> best \<in> set (values_of scores)
          \<and> list_all (\<lambda>v. v \<le> best) (values_of scores)
          \<and> snd (update_evolution cfg env beast) = None
          \<and> evolution_prog (fst (update_evolution cfg env beast)) =
              (if evolution_prog beast
                    + get_default (evolution_config cfg) ''progression_rate'' 0.01 * max best 0.1
                    \<ge> get_default (evolution_config cfg) ''stage_goal'' 1
                  \<and> evolution_stage beast < 4
               then 0
               else evolution_prog beast
                    + get_default (evolution_config cfg) ''progression_rate'' 0.01 * max best 0.1)"
    using sc 1 2 3 4 5 6 by blast
next
  assume h: "0 < get_default (evolution_config cfg) ''progression_rate'' 0.01
         \<and> 11 * get_default (evolution_config cfg) ''progression_rate'' 0.01
             \<le> get_default (evolution_config cfg) ''stage_goal'' 1
         \<and> evolution_prog beast = 0 \<and> length envs = 10"
  then have r: "0 < get_default (evolution_config cfg) ''progression_rate'' 0.01"
    and m: "11 * get_default (evolution_config cfg) ''progression_rate'' 0.01
             \<le> get_default (evolution_config cfg) ''stage_goal'' 1"
    and p0: "evolution_prog beast = 0"
    and len: "length envs = 10"
    by simp_all
  have g: "evolution_prog beast
           + real (length envs) * get_default (evolution_config cfg) ''progression_rate'' 0.01
           < get_default (evolution_config cfg) ''stage_goal'' 1"
    using r m by (simp add: p0 len)
  have strict: "evolution_prog (fst (run_evolution cfg (take k envs) beast))
                    < evolution_prog (fst (run_evolution cfg (take (Suc k) envs) beast))
      \<and> snd (run_evolution cfg (take (Suc k) envs) beast) = None" if "k < 10" for k
    using run_evolution_strict [OF assms r g, of k] that len by simp
  show all: "\<forall>k<10. evolution_prog (fst (run_evolution cfg (take k envs) beast))
                    < evolution_prog (fst (run_evolution cfg (take (Suc k) envs) beast))"
    using strict by blast
  have t: "take (Suc 9) envs = envs" using len by simp
  show "snd (run_evolution cfg envs beast) = None"
    using strict [of 9] unfolding t by simp
  have "evolution_prog (fst (run_evolution cfg (take 1 envs) beast))
      \<le> evolution_prog (fst (run_evolution cfg envs beast))"
  proof -
    obtain e es where es: "envs = e # es" using len by (cases envs) auto
    obtain b1 o1 where u: "update_evolution cfg e beast = (b1, o1)"
      by (cases "update_evolution cfg e beast")
    have "evolution_prog beast + get_default (evolution_config cfg) ''progression_rate'' 0.01
        < get_default (evolution_config cfg) ''stage_goal'' 1"
      using g r len by simp
    from evolution_step_increase [OF assms r this, of e] u
    have o1: "o1 = None" and p1: "evolution_prog b1
        \<le> evolution_prog beast + get_default (evolution_config cfg) ''progression_rate'' 0.01"
      by auto
    have "evolution_prog b1
        + real (length es) * get_default (evolution_config cfg) ''progression_rate'' 0.01
        < get_default (evolution_config cfg) ''stage_goal'' 1"
      using p1 g es by (simp add: algebra_simps)
    from run_evolution_bound [OF assms r this]
    show ?thesis using es u o1 by auto
  qed
  moreover have "evolution_prog beast < evolution_prog (fst (run_evolution cfg (take 1 envs) beast))"
    using strict [of 0] by simp
  ultimately show "evolution_prog beast < evolution_prog (fst (run_evolution cfg envs beast))"
    by linarith
qed

theorem evolution_progress_accumulates_witness:
  "evolution_prog (fst (update_evolution example_config sun_env (create_default_beast 0))) = 0.01
   \<and> 0 < evolution_prog
        (fst (run_evolution example_config (replicate 10 sun_env) (create_default_beast 0)))"
proof -
  have p0: "evolution_prog (create_default_beast 0) = 0"
    and s1: "evolution_stage (create_default_beast 0) = 1"
    by (simp_all add: create_default_beast_def Beast_init_def)
  have c: "evolution_config example_config = []" by (simp add: example_config_def)
  show ?thesis
    using evolution_progress_accumulates [OF example_keys_present,
        of sun_env "create_default_beast 0" "replicate 10 sun_env"]
    by (auto simp: example_scores p0 s1 c get_default_def values_of_def)
qed

subsection \<open>Order and number of the generated tasks\<close>

text \<open>
  Claim C7, as stated: for every beast and snapshot \<^verbatim>\<open>generate_tasks\<close> returns at
  most three tasks, the tasks of the needs below 40 coming first in the order hunger, rest,
  social, hygiene. It is false: the loop follows the iteration order of the beast's own
  needs dictionary, and the traits are read by subscript. A beast constructed with its needs
  written as hygiene, social, rest, hunger, all at 10, gets clean, meet peer and quiet time,
  and no \<^verbatim>\<open>feed\<close> task although its hunger is below 40; a beast without the explorer
  trait makes the method raise \<^verbatim>\<open>KeyError\<close>.
\<close>

theorem generate_tasks_order_counterexample:
  "map_of (needs reversed_beast) ''hunger'' = Some 10
   \<and> generate_tasks reversed_beast calm_env =
       Inr [clean_task, meet_peer_task, quiet_time_task]
   \<and> ''feed'' \<notin> set (map action [clean_task, meet_peer_task, quiet_time_task])
   \<and> generate_tasks (reversed_beast\<lparr>traits := [(''playful'', 0.5)]\<rparr>) calm_env =
       Inl (KeyError ''explorer'')"
  by code_simp

text \<open>
  Claim C7, amended. For every beast and snapshot, \<^verbatim>\<open>generate_tasks\<close> returns at most
  three tasks. When the traits hold \<^verbatim>\<open>explorer\<close> and \<^verbatim>\<open>playful\<close>, the tasks are the
  first three of: one task for each need below 40, in the iteration order of the beast's
  needs dictionary (hunger gives feed, rest quiet time, social meet peer, hygiene clean),
  then the exploration task when the explorer trait exceeds 0.7, the activity task when the
  playful trait exceeds 0.7 and the brightness task when lux is below 100. For a beast built
  from dictionaries in the default key order and then updated by the engine, that order is
  hunger, rest, social, hygiene and both traits are present; in particular a hunger below 40,
  as in the needs hunger 20, rest 80, social 80, hygiene 80, puts the \<^verbatim>\<open>feed\<close> task
  first.
\<close>

theorem generate_tasks_in_order:
  "(\<forall>tasks. generate_tasks beast env = Inr tasks \<longrightarrow> length tasks \<le> 3)
   \<and> (\<forall>ex pl. map_of (traits beast) ''explorer'' = Some ex
          \<and> map_of (traits beast) ''playful'' = Some pl \<longrightarrow>
        generate_tasks beast env =
          Inr (take 3 (concat (map need_task (needs beast))
                 @ (if ex > 0.7 then [new_location_task] else [])
                 @ (if pl > 0.7 then [play_session_task] else [])
                 @ (if lux env < 100 then [bright_spot_task] else []))))
   \<and> (built_in_order beast \<longrightarrow>
        (\<exists>h r s y ex pl.
            needs beast = [(''hunger'', h), (''rest'', r), (''social'', s), (''hygiene'', y)]
          \<and> map_of (traits beast) ''explorer'' = Some ex
          \<and> map_of (traits beast) ''playful'' = Some pl
          \<and> generate_tasks beast env =
              Inr (take 3 ((if h < 40 then [feed_task] else [])
                     @ (if r < 40 then [quiet_time_task] else [])
                     @ (if s < 40 then [meet_peer_task] else [])
                     @ (if y < 40 then [clean_task] else [])
                     @ (if ex > 0.7 then [new_location_task] else [])
                     @ (if pl > 0.7 then [play_session_task] else [])
                     @ (if lux env < 100 then [bright_spot_task] else [])))
          \<and> (h < 40 \<longrightarrow> (\<exists>tasks. generate_tasks beast env = Inr (feed_task # tasks)
                               \<and> action feed_task = ''feed''))))"
proof (intro conjI allI impI)
  fix tasks assume "generate_tasks beast env = Inr tasks"
  then show "length tasks \<le> 3" by (rule generate_tasks_length)
next
  fix ex pl
  assume "map_of (traits beast) ''explorer'' = Some ex
          \<and> map_of (traits beast) ''playful'' = Some pl"
  then show "generate_tasks beast env =
          Inr (take 3 (concat (map need_task (needs beast))
                 @ (if ex > 0.7 then [new_location_task] else [])
                 @ (if pl > 0.7 then [play_session_task] else [])
                 @ (if lux env < 100 then [bright_spot_task] else [])))"
    by (simp add: generate_tasks_iteration_order)
next
  assume "built_in_order beast"
  then obtain h r s y ex pl where
    n: "needs beast = [(''hunger'', h), (''rest'', r), (''social'', s), (''hygiene'', y)]"
    and e: "map_of (traits beast) ''explorer'' = Some ex"
    and p: "map_of (traits beast) ''playful'' = Some pl"
    by (rule built_in_order_dicts)
  have c: "concat (map need_task (needs beast)) =
      (if h < 40 then [feed_task] else []) @ (if r < 40 then [quiet_time_task] else [])
      @ (if s < 40 then [meet_peer_task] else []) @ (if y < 40 then [clean_task] else [])"
    by (simp add: n need_task_def)
  have g: "generate_tasks beast env =
          Inr (take 3 ((if h < 40 then [feed_task] else [])
                 @ (if r < 40 then [quiet_time_task] else [])
                 @ (if s < 40 then [meet_peer_task] else [])
                 @ (if y < 40 then [clean_task] else [])
                 @ (if ex > 0.7 then [new_location_task] else [])
                 @ (if pl > 0.7 then [play_session_task] else [])
                 @ (if lux env < 100 then [bright_spot_task] else [])))"
    unfolding generate_tasks_iteration_order [OF e p] c by simp
  have f: "h < 40 \<longrightarrow> (\<exists>tasks. generate_tasks beast env = Inr (feed_task # tasks)
                               \<and> action feed_task = ''feed'')"
    unfolding g by (simp add: feed_task_def)
  show "\<exists>h r s y ex pl.
            needs beast = [(''hunger'', h), (''rest'', r), (''social'', s), (''hygiene'', y)]
          \<and> map_of (traits beast) ''explorer'' = Some ex
          \<and> map_of (traits beast) ''playful'' = Some pl
          \<and> generate_tasks beast env =
              Inr (take 3 ((if h < 40 then [feed_task] else [])
                     @ (if r < 40 then [quiet_time_task] else [])
                     @ (if s < 40 then [meet_peer_task] else [])
                     @ (if y < 40 then [clean_task] else [])
                     @ (if ex > 0.7 then [new_location_task] else [])
                     @ (if pl > 0.7 then [play_session_task] else [])
                     @ (if lux env < 100 then [bright_spot_task] else [])))
          \<and> (h < 40 \<longrightarrow> (\<exists>tasks. generate_tasks beast env = Inr (feed_task # tasks)
                               \<and> action feed_task = ''feed''))"
    using n e p g f by blast
qed

theorem generate_tasks_in_order_witness:
  "generate_tasks hungry_beast calm_env = Inr [feed_task]
   \<and> action feed_task = ''feed''
   \<and> generate_tasks reversed_beast calm_env =
       Inr [clean_task, meet_peer_task, quiet_time_task]"
proof -
  have b: "built_in_order hungry_beast"
    unfolding hungry_beast_def
    by (rule init_in_order) (simp_all add: need_keys_def trait_keys_def)
  have n: "needs hungry_beast =
      [(''hunger'', 20), (''rest'', 80), (''social'', 80), (''hygiene'', 80)]"
    by (simp add: hungry_beast_def Beast_init_def clamp_values_def clamp_def)
  have e: "map_of (traits hungry_beast) ''explorer'' = Some 0.6"
    and p: "map_of (traits hungry_beast) ''playful'' = Some 0.5"
    by (simp_all add: hungry_beast_def Beast_init_def clamp_values_def clamp_def)
  from generate_tasks_in_order [of hungry_beast calm_env] b
  obtain h r s y ex pl where
    "needs hungry_beast = [(''hunger'', h), (''rest'', r), (''social'', s), (''hygiene'', y)]"
    "map_of (traits hungry_beast) ''explorer'' = Some ex"
    "map_of (traits hungry_beast) ''playful'' = Some pl"
    "generate_tasks hungry_beast calm_env =
              Inr (take 3 ((if h < 40 then [feed_task] else [])
                     @ (if r < 40 then [quiet_time_task] else [])
                     @ (if s < 40 then [meet_peer_task] else [])
                     @ (if y < 40 then [clean_task] else [])
                     @ (if ex > 0.7 then [new_location_task] else [])
                     @ (if pl > 0.7 then [play_session_task] else [])
                     @ (if lux calm_env < 100 then [bright_spot_task] else [])))"
    by blast
  then have 1: "generate_tasks hungry_beast calm_env = Inr [feed_task]"
    unfolding n e p by (simp add: calm_env_def)
  have e': "map_of (traits reversed_beast) ''explorer'' = Some 0.6"
    and p': "map_of (traits reversed_beast) ''playful'' = Some 0.5"
    and n': "needs reversed_beast =
      [(''hygiene'', 10), (''social'', 10), (''rest'', 10), (''hunger'', 10)]"
    by (simp_all add: reversed_beast_def Beast_init_def clamp_values_def clamp_def)
  from generate_tasks_in_order [of reversed_beast calm_env] e' p'
  have "generate_tasks reversed_beast calm_env =
          Inr (take 3 (concat (map need_task (needs reversed_beast))
                 @ (if (0.6::real) > 0.7 then [new_location_task] else [])
                 @ (if (0.5::real) > 0.7 then [play_session_task] else [])
                 @ (if lux calm_env < 100 then [bright_spot_task] else [])))"
    by blast
  then have 2: "generate_tasks reversed_beast calm_env =
       Inr [clean_task, meet_peer_task, quiet_time_task]"
    unfolding n' by (simp add: need_task_def calm_env_def)
  show ?thesis using 1 2 by (simp add: feed_task_def)
qed

end
